theory Spec2Isabelle
  imports Complex_Main "HOL-Library.AList" "HOL-Library.Word"
begin

section \<open>DragnDrop: the file-transfer engine\<close>

text \<open>
  The development embeds two parts of the repository:
  \<^item> \<^verbatim>\<open>src/view.py\<close>, class \<^verbatim>\<open>WorkerManager\<close>: the coordinator that registers transfer
    jobs, aggregates their progress and handles finished events and the global cancel;
  \<^item> \<^verbatim>\<open>src/utils.py\<close>, class \<^verbatim>\<open>Transfer\<close> and the helpers \<^verbatim>\<open>file_exists\<close>,
    \<^verbatim>\<open>delete_file\<close>: one job, its duplicate detection and its two copy loops.

  Python dictionaries keep insertion order, and \<^verbatim>\<open>is_valid\<close> depends on it, so a
  dictionary is an association list with distinct keys: \<open>AList.update\<close> replaces the
  value of a present key in place and appends an absent key at the end, as an assignment
  \<^verbatim>\<open>d[k] = v\<close> does. Percentages are the results of Python's true division of integers;
  they are modelled exactly, as rationals.
\<close>

subsection \<open>Exceptions, outcomes, signals\<close>

datatype pyexn =
    KeyError
  | PermissionError
  | FileNotFoundError
  | IsADirectoryError
  | ZeroDivisionError
  | OSError

text \<open>\<^verbatim>\<open>ON_SUCCESS = 1\<close>, \<^verbatim>\<open>ON_CANCEL = 2\<close>, \<^verbatim>\<open>ON_ERROR = 3\<close>.\<close>

datatype outcome = ON_SUCCESS | ON_CANCEL | ON_ERROR

text \<open>
  The four signals of \<^verbatim>\<open>TransferSignals\<close>, with their payloads. The progress signal
  is emitted with the quotient the loop computes; the model carries that quotient. (The
  signal is declared with an integer payload; a truncated quotient would keep the order
  of the values and the value 100.)
\<close>

datatype event =
    Finished string
  | Progress string rat
  | Transferred string rat
  | Duplicate string

subsection \<open>The job object\<close>

text \<open>
  The slots of \<^verbatim>\<open>Transfer\<close>. The field \<^verbatim>\<open>size\<close> is called \<open>size_bytes\<close> here;
  \<^verbatim>\<open>running\<close> holds 0 or 1 in the source and is a boolean here.
\<close>

record Transfer =
  src :: string
  dst :: string
  size_bytes :: nat
  running :: bool
  job_id :: string

subsection \<open>The coordinator: \<^verbatim>\<open>WorkerManager\<close>\<close>

text \<open>
  Job objects are shared between the coordinator's active map, the thread pool and the
  thread that runs them, and \<^verbatim>\<open>cancel\<close> writes their \<^verbatim>\<open>running\<close> field through the
  active map. The objects therefore live in a store (\<open>heap\<close>) and the active map and the
  pool hold references. The thread pool has one thread (\<^verbatim>\<open>setMaxThreadCount(1)\<close>):
  \<open>pool_running\<close> is the job it executes, \<open>pool_queue\<close> the jobs that wait.
\<close>

datatype signal = SigProgress | SigFinished | SigTransferred | SigDuplicate

datatype slot = SlotReceiveProgress | SlotDone | SlotReceiveTransferred | SlotReceiveDups

record WorkerManager =
  heap :: "nat \<rightharpoonup> Transfer"
  next_ref :: nat
  workers_progress :: "(string \<times> rat) list"
  active_workers :: "(string \<times> nat) list"
  transferred :: "(string \<times> rat) list"
  total_workers :: nat
  total_size :: nat
  duplicates :: "string list"
  pool_running :: "nat option"
  pool_queue :: "nat list"
  connections :: "(nat \<times> signal \<times> slot) list"
  visible :: bool
  all_done_count :: nat
  dup_windows :: "string list list"

text \<open>The state right after \<^verbatim>\<open>WorkerManager.__init__\<close>.\<close>

definition init_manager :: WorkerManager where
  "init_manager = \<lparr> heap = Map.empty, next_ref = 0, workers_progress = [],
     active_workers = [], transferred = [], total_workers = 0, total_size = 0,
     duplicates = [], pool_running = None, pool_queue = [], connections = [],
     visible = False, all_done_count = 0, dup_windows = [] \<rparr>"

text \<open>The job objects the active map refers to, in the order of the map.\<close>

definition active_objs :: "WorkerManager \<Rightarrow> Transfer list" where
  "active_objs s = List.map_filter (heap s) (map snd (active_workers s))"

text \<open>
  \<^verbatim>\<open>is_valid\<close>: the dictionary \<^verbatim>\<open>remaining\<close> is keyed by the source path alone, so of
  several active jobs with one source path it keeps the one inserted last.
\<close>

definition remaining_of :: "Transfer list \<Rightarrow> (string \<times> (string \<times> string)) list" where
  "remaining_of ws = fold (\<lambda>w d. AList.update (src w) (src w, dst w) d) ws []"

definition is_valid :: "WorkerManager \<Rightarrow> Transfer \<Rightarrow> bool" where
  "is_valid s worker =
     (case map_of (remaining_of (active_objs s)) (src worker) of
        None \<Rightarrow> True
      | Some (src', dst') \<Rightarrow> \<not> (src' = src worker \<and> dst' = dst worker))"

text \<open>\<^verbatim>\<open>QThreadPool.start\<close> with one thread: run the job now if the thread is free, else queue it.\<close>

definition pool_start :: "nat \<Rightarrow> WorkerManager \<Rightarrow> WorkerManager" where
  "pool_start r s =
     (case pool_running s of
        None \<Rightarrow> s\<lparr>pool_running := Some r\<rparr>
      | Some _ \<Rightarrow> s\<lparr>pool_queue := pool_queue s @ [r]\<rparr>)"

text \<open>
  \<^verbatim>\<open>enqueue\<close>. The job object is created by the caller just before; the model stores it
  at the next free reference when it is accepted.
\<close>

definition enqueue :: "WorkerManager \<Rightarrow> Transfer \<Rightarrow> WorkerManager" where
  "enqueue s worker =
     (if is_valid s worker then
        (let r = next_ref s;
             s1 = s\<lparr>heap := (heap s)(r \<mapsto> worker), next_ref := Suc r\<rparr>;
             s2 = s1\<lparr>connections := connections s1 @
                    [(r, SigProgress, SlotReceiveProgress), (r, SigFinished, SlotDone),
                     (r, SigTransferred, SlotReceiveTransferred),
                     (r, SigDuplicate, SlotReceiveDups)]\<rparr>;
             s3 = s2\<lparr>active_workers := AList.update (job_id worker) r (active_workers s2)\<rparr>;
             s4 = s3\<lparr>total_workers := total_workers s3 + 1\<rparr>;
             s5 = s4\<lparr>total_size := total_size s4 + size_bytes worker\<rparr>;
             s6 = pool_start r s5
         in s6\<lparr>visible := True\<rparr>)
      else s)"

definition receive_progress :: "WorkerManager \<Rightarrow> string \<Rightarrow> rat \<Rightarrow> WorkerManager" where
  "receive_progress s jid progress =
     s\<lparr>workers_progress := AList.update jid progress (workers_progress s)\<rparr>"

definition receive_transferred :: "WorkerManager \<Rightarrow> string \<Rightarrow> rat \<Rightarrow> WorkerManager" where
  "receive_transferred s jid sz =
     s\<lparr>transferred := AList.update jid sz (transferred s)\<rparr>"

definition receive_dups :: "WorkerManager \<Rightarrow> string \<Rightarrow> WorkerManager" where
  "receive_dups s file = s\<lparr>duplicates := duplicates s @ [file]\<rparr>"

text \<open>
  \<^verbatim>\<open>calculate_progress\<close>: the sum of the tracked percentages divided by
  \<^verbatim>\<open>total_workers\<close>, the number of accepted jobs; 0 when nothing is tracked or no job
  is counted.
\<close>

definition calculate_progress :: "WorkerManager \<Rightarrow> rat" where
  "calculate_progress s =
     (if workers_progress s = [] \<or> total_workers s = 0 then 0
      else sum_list (map snd (workers_progress s)) / of_nat (total_workers s))"

definition calculate_transferred :: "WorkerManager \<Rightarrow> rat" where
  "calculate_transferred s =
     (if transferred s = [] then 0 else sum_list (map snd (transferred s)))"

definition handle_dups :: "WorkerManager \<Rightarrow> WorkerManager" where
  "handle_dups s =
     (if duplicates s \<noteq> [] then
        s\<lparr>dup_windows := dup_windows s @ [duplicates s], duplicates := []\<rparr>
      else s)"

text \<open>
  \<^verbatim>\<open>done\<close> (called \<open>done_job\<close> here). The statement \<^verbatim>\<open>del self._active_workers[job_id]\<close>
  is guarded only by the map being non-empty; on an absent key it raises \<^verbatim>\<open>KeyError\<close>.
\<close>

definition done_job :: "WorkerManager \<Rightarrow> string \<Rightarrow> pyexn + WorkerManager" where
  "done_job s jid =
     (if active_workers s \<noteq> [] \<and> jid \<notin> fst ` set (active_workers s) then Inl KeyError
      else
        (let s1 = (if active_workers s \<noteq> []
                   then s\<lparr>active_workers := AList.delete jid (active_workers s)\<rparr>
                   else s)
         in if list_all (\<lambda>v. v = 100) (map snd (workers_progress s1))
                 \<and> active_workers s1 = []
            then Inr ((handle_dups
                   (s1\<lparr>workers_progress := [], transferred := [], total_workers := 0,
                       total_size := 0, all_done_count := all_done_count s1 + 1\<rparr>))
                   \<lparr>visible := False\<rparr>)
            else Inr s1))"

text \<open>\<^verbatim>\<open>cancel\<close>: clear the pool's queue, clear the flag of every active job, forget them.\<close>

definition stop_worker :: "nat \<Rightarrow> (nat \<rightharpoonup> Transfer) \<Rightarrow> (nat \<rightharpoonup> Transfer)" where
  "stop_worker r h = (case h r of None \<Rightarrow> h | Some w \<Rightarrow> h(r \<mapsto> w\<lparr>running := False\<rparr>))"

definition cancel :: "WorkerManager \<Rightarrow> WorkerManager" where
  "cancel s =
     (let s1 = s\<lparr>pool_queue := []\<rparr>;
          s2 = s1\<lparr>heap := fold stop_worker (map snd (active_workers s1)) (heap s1)\<rparr>
      in s2\<lparr>active_workers := []\<rparr>)"

subsection \<open>Paths and the file system\<close>

text \<open>
  A file system maps a path to a regular file with its bytes or to a directory. Paths are
  compared as strings; the separator is \<^verbatim>\<open>/\<close>, and \<open>os_join\<close> and \<open>os_basename\<close>
  follow \<^verbatim>\<open>posixpath.join\<close> (for two components) and \<^verbatim>\<open>posixpath.basename\<close>.
\<close>

type_synonym byte = "8 word"

datatype node = File "byte list" | Dir

definition isdir :: "(string \<rightharpoonup> node) \<Rightarrow> string \<Rightarrow> bool" where
  "isdir fs p = (fs p = Some Dir)"

definition path_exists :: "(string \<rightharpoonup> node) \<Rightarrow> string \<Rightarrow> bool" where
  "path_exists fs p = (fs p \<noteq> None)"

definition rstrip_sep :: "string \<Rightarrow> string" where
  "rstrip_sep p = rev (dropWhile (\<lambda>c. c = CHR ''/'') (rev p))"

definition os_basename :: "string \<Rightarrow> string" where
  "os_basename p = rev (takeWhile (\<lambda>c. c \<noteq> CHR ''/'') (rev p))"

definition os_join :: "string \<Rightarrow> string \<Rightarrow> string" where
  "os_join a b =
     (if b \<noteq> [] \<and> hd b = CHR ''/'' then b
      else if a = [] \<or> last a = CHR ''/'' then a @ b
      else a @ ''/'' @ b)"

text \<open>\<^verbatim>\<open>_basename\<close>: strip the trailing separators, then take the last component.\<close>

definition basename_strip :: "string \<Rightarrow> string" where
  "basename_strip path = os_basename (rstrip_sep path)"

text \<open>\<^verbatim>\<open>Transfer.__init__\<close>; the identifier drawn by \<^verbatim>\<open>uuid.uuid4()\<close> is a parameter.\<close>

definition Transfer_init ::
  "(string \<rightharpoonup> node) \<Rightarrow> string \<Rightarrow> string \<Rightarrow> nat \<Rightarrow> string \<Rightarrow> Transfer" where
  "Transfer_init fs s d sz jid =
     \<lparr> src = s,
       dst = (if isdir fs d then os_join d (basename_strip s) else d),
       size_bytes = sz, running = False, job_id = jid \<rparr>"

text \<open>\<^verbatim>\<open>file_exists\<close>: a destination that is a directory is resolved once more before the test.\<close>

definition file_exists :: "(string \<rightharpoonup> node) \<Rightarrow> string \<Rightarrow> string \<Rightarrow> bool" where
  "file_exists fs s d =
     (let d' = (if isdir fs d then os_join d (basename_strip s) else d)
      in if path_exists fs d' then True else False)"

subsection \<open>What the environment decides\<close>

text \<open>
  The copy runs against an operating system and a second thread. Their choices are the
  fields of \<open>env\<close>:
  \<^item> \<open>rb_error p\<close>, \<open>wb_error p\<close>: the exception \<^verbatim>\<open>open(p, 'rb')\<close>, \<^verbatim>\<open>open(p, 'wb')\<close>
    raises for a reason outside the modelled file system (permissions above all);
  \<^item> \<open>read_error i\<close>, \<open>write_error i\<close>: the read, the write of loop iteration \<open>i\<close> raises;
  \<^item> \<open>stop_request i\<close>: the canceller has cleared the job's \<^verbatim>\<open>running\<close> flag by the
    time iteration \<open>i\<close> tests it;
  \<^item> \<open>unlink_error p\<close>, \<open>trash_error p\<close>: \<^verbatim>\<open>os.unlink(p)\<close> raises, \<^verbatim>\<open>send2trash(p)\<close>
    raises \<^verbatim>\<open>TrashPermissionError\<close>.
\<close>

record env =
  rb_error :: "string \<Rightarrow> pyexn option"
  wb_error :: "string \<Rightarrow> pyexn option"
  read_error :: "nat \<Rightarrow> bool"
  write_error :: "nat \<Rightarrow> bool"
  stop_request :: "nat \<Rightarrow> bool"
  unlink_error :: "string \<Rightarrow> bool"
  trash_error :: "string \<Rightarrow> bool"

text \<open>File-system operations a job performs, in order, besides opening files.\<close>

datatype fs_op =
    OpRead nat
  | OpWrite nat
  | OpUnlink string
  | OpTrash string
  | OpCopystat string string

text \<open>
  The state one job runs in: the job object, the file system, the trash, the signals
  emitted so far and the operations performed so far.
\<close>

record jstate =
  self :: Transfer
  files :: "string \<rightharpoonup> node"
  trash_bin :: "(string \<times> node) list"
  emitted :: "event list"
  oplog :: "fs_op list"

definition emit :: "event \<Rightarrow> jstate \<Rightarrow> jstate" where
  "emit ev st = st\<lparr>emitted := emitted st @ [ev]\<rparr>"

definition log_op :: "fs_op \<Rightarrow> jstate \<Rightarrow> jstate" where
  "log_op op st = st\<lparr>oplog := oplog st @ [op]\<rparr>"

definition set_running :: "bool \<Rightarrow> jstate \<Rightarrow> jstate" where
  "set_running b st = st\<lparr>self := (self st)\<lparr>running := b\<rparr>\<rparr>"

text \<open>Opening for reading: the stream yields the bytes of the file.\<close>

definition open_rb :: "env \<Rightarrow> (string \<rightharpoonup> node) \<Rightarrow> string \<Rightarrow> pyexn + unit" where
  "open_rb e fs p =
     (case rb_error e p of
        Some ex \<Rightarrow> Inl ex
      | None \<Rightarrow>
          (case fs p of
             None \<Rightarrow> Inl FileNotFoundError
           | Some Dir \<Rightarrow> Inl IsADirectoryError
           | Some (File bs) \<Rightarrow> Inr ()))"

text \<open>Opening for writing creates the file or truncates it.\<close>

definition open_wb :: "env \<Rightarrow> (string \<rightharpoonup> node) \<Rightarrow> string \<Rightarrow> pyexn + (string \<rightharpoonup> node)" where
  "open_wb e fs p =
     (case wb_error e p of
        Some ex \<Rightarrow> Inl ex
      | None \<Rightarrow>
          (case fs p of
             Some Dir \<Rightarrow> Inl IsADirectoryError
           | _ \<Rightarrow> Inr (fs(p \<mapsto> File []))))"

definition file_bytes :: "(string \<rightharpoonup> node) \<Rightarrow> string \<Rightarrow> byte list" where
  "file_bytes fs p = (case fs p of Some (File bs) \<Rightarrow> bs | _ \<Rightarrow> [])"

text \<open>\<^verbatim>\<open>fdst.write(chunk)\<close>: the bytes are appended to the open destination file.\<close>

definition fdst_write :: "string \<Rightarrow> byte list \<Rightarrow> jstate \<Rightarrow> jstate" where
  "fdst_write p chunk st =
     log_op (OpWrite (length chunk))
       (st\<lparr>files := (case files st p of
                        Some (File bs) \<Rightarrow> (files st)(p \<mapsto> File (bs @ chunk))
                      | _ \<Rightarrow> files st)\<rparr>)"

subsection \<open>The copy loops of \<^verbatim>\<open>Transfer\<close>\<close>

text \<open>
  The handler \<^verbatim>\<open>except Exception\<close> of both loops: clear the flag, emit progress 100
  and finished, return \<^verbatim>\<open>ON_ERROR\<close>.
\<close>

definition on_exception :: "jstate \<Rightarrow> outcome \<times> jstate" where
  "on_exception st =
     (let st1 = set_running False st;
          st2 = emit (Progress (job_id (self st1)) 100) st1;
          st3 = emit (Finished (job_id (self st2))) st2
      in (ON_ERROR, st3))"

text \<open>
  The loop of \<^verbatim>\<open>_copyfileobj_readinto\<close>. \<open>rest\<close> holds the bytes of the source not yet
  read, \<open>i\<close> counts the iterations, \<open>progress\<close> is the local variable of that name.
  \<^verbatim>\<open>readinto\<close> fills the buffer of \<open>len\<close> bytes as far as the source has bytes. The
  division by \<^verbatim>\<open>self.size\<close> raises \<^verbatim>\<open>ZeroDivisionError\<close> when the size is 0, inside
  the \<^verbatim>\<open>try\<close>.
\<close>

function readinto_loop ::
  "env \<Rightarrow> string \<Rightarrow> nat \<Rightarrow> nat \<Rightarrow> nat \<Rightarrow> byte list \<Rightarrow> jstate \<Rightarrow> outcome \<times> jstate" where
  "readinto_loop e fdst len i progress rest st =
     (if read_error e i then on_exception st
      else
        (let n = min len (length rest);
             st0 = log_op (OpRead n) st
         in if n = 0 then
              (let st1 = emit (Finished (job_id (self st0))) st0;
                   st2 = set_running False st1
               in (ON_SUCCESS, st2))
            else if write_error e i then on_exception st0
            else
              (let st1 = (if n < len then fdst_write fdst (take n rest) st0
                          else fdst_write fdst (take len rest) st0);
                   progress' = progress + n
               in if size_bytes (self st1) = 0 then on_exception st1
                  else
                    (let percentage = of_nat (progress' * 100) / of_nat (size_bytes (self st1));
                         st2 = emit (Transferred (job_id (self st1)) (of_nat progress')) st1;
                         st3 = emit (Progress (job_id (self st2)) percentage) st2;
                         st4 = (if stop_request e i then set_running False st3 else st3)
                     in if \<not> running (self st4) then
                          (let st5 = emit (Progress (job_id (self st4)) 100) st4;
                               st6 = emit (Finished (job_id (self st5))) st5
                           in (ON_CANCEL, st6))
                        else readinto_loop e fdst len (Suc i) progress' (drop n rest) st4))))"
  by pat_completeness auto
termination
  by (relation "measure (\<lambda>(e, fdst, len, i, progress, rest, st). length rest)") auto

definition copyfileobj_readinto ::
  "env \<Rightarrow> byte list \<Rightarrow> string \<Rightarrow> nat \<Rightarrow> jstate \<Rightarrow> outcome \<times> jstate" where
  "copyfileobj_readinto e fsrc fdst len st =
     readinto_loop e fdst len 0 0 fsrc (set_running True st)"

text \<open>The loop of \<^verbatim>\<open>_copyfileobj\<close>: \<^verbatim>\<open>read(length)\<close> returns up to \<open>len\<close> bytes.\<close>

function read_loop ::
  "env \<Rightarrow> string \<Rightarrow> nat \<Rightarrow> nat \<Rightarrow> nat \<Rightarrow> byte list \<Rightarrow> jstate \<Rightarrow> outcome \<times> jstate" where
  "read_loop e fdst len i progress rest st =
     (if read_error e i then on_exception st
      else
        (let buff = take len rest;
             st0 = log_op (OpRead (length buff)) st
         in if buff = [] then
              (let st1 = emit (Finished (job_id (self st0))) st0;
                   st2 = set_running False st1
               in (ON_SUCCESS, st2))
            else if write_error e i then on_exception st0
            else
              (let st1 = fdst_write fdst buff st0;
                   progress' = progress + length buff
               in if size_bytes (self st1) = 0 then on_exception st1
                  else
                    (let percentage = of_nat (progress' * 100) / of_nat (size_bytes (self st1));
                         st2 = emit (Transferred (job_id (self st1)) (of_nat progress')) st1;
                         st3 = emit (Progress (job_id (self st2)) percentage) st2;
                         st4 = (if stop_request e i then set_running False st3 else st3)
                     in if \<not> running (self st4) then
                          (let st5 = emit (Progress (job_id (self st4)) 100) st4;
                               st6 = emit (Finished (job_id (self st5))) st5
                           in (ON_CANCEL, st6))
                        else read_loop e fdst len (Suc i) progress' (drop (length buff) rest) st4))))"
  by pat_completeness auto
termination
  by (relation "measure (\<lambda>(e, fdst, len, i, progress, rest, st). length rest)") auto

definition copyfileobj ::
  "env \<Rightarrow> byte list \<Rightarrow> string \<Rightarrow> nat \<Rightarrow> jstate \<Rightarrow> outcome \<times> jstate" where
  "copyfileobj e fsrc fdst len st =
     read_loop e fdst len 0 0 fsrc (set_running True st)"

subsection \<open>\<^verbatim>\<open>_copyfile\<close>, \<^verbatim>\<open>copy\<close>, \<^verbatim>\<open>run\<close>\<close>

text \<open>
  \<^verbatim>\<open>_copyfile\<close> catches \<^verbatim>\<open>PermissionError\<close> only; any other exception of the two
  \<^verbatim>\<open>open\<close> calls leaves the function (\<open>Inl\<close>). The source is opened first, then the
  destination is created or truncated, then the source is read.
\<close>

definition copyfile_handler :: "pyexn \<Rightarrow> jstate \<Rightarrow> (pyexn + outcome) \<times> jstate" where
  "copyfile_handler ex st =
     (if ex = PermissionError then
        (let st1 = emit (Progress (job_id (self st)) 100) st;
             st2 = emit (Finished (job_id (self st1))) st1
         in (Inr ON_ERROR, st2))
      else (Inl ex, st))"

definition copyfile :: "env \<Rightarrow> string \<Rightarrow> string \<Rightarrow> jstate \<Rightarrow> (pyexn + outcome) \<times> jstate" where
  "copyfile e s d st =
     (case open_rb e (files st) s of
        Inl ex \<Rightarrow> copyfile_handler ex st
      | Inr _ \<Rightarrow>
          (case open_wb e (files st) d of
             Inl ex \<Rightarrow> copyfile_handler ex st
           | Inr fs' \<Rightarrow>
               (let st1 = st\<lparr>files := fs'\<rparr>;
                    fsrc = file_bytes fs' s
                in if size_bytes (self st1) > 0 then
                     (case copyfileobj_readinto e fsrc d (min 1048576 (size_bytes (self st1))) st1
                      of (r, st2) \<Rightarrow> (Inr r, st2))
                   else
                     (case copyfileobj e fsrc d 1048576 st1
                      of (r, st2) \<Rightarrow> (Inr r, st2)))))"

text \<open>\<^verbatim>\<open>copy_stat\<close>: metadata is not part of the model; a failure is swallowed.\<close>

definition copy_stat :: "string \<Rightarrow> string \<Rightarrow> jstate \<Rightarrow> jstate" where
  "copy_stat s d st = log_op (OpCopystat s d) st"

text \<open>
  \<^verbatim>\<open>delete_file\<close>: \<^verbatim>\<open>os.unlink\<close> removes a regular file for good; when it raises, the
  handler only prints. With \<^verbatim>\<open>trash=True\<close> the file moves to the trash; the
  repository never passes \<^verbatim>\<open>trash=True\<close>, and of the failures of \<^verbatim>\<open>send2trash\<close>
  only the handled \<^verbatim>\<open>TrashPermissionError\<close> is modelled.
\<close>

definition delete_file :: "env \<Rightarrow> string \<Rightarrow> bool \<Rightarrow> jstate \<Rightarrow> jstate" where
  "delete_file e filename trash st =
     (if trash then
        (case files st filename of
           Some nd \<Rightarrow>
             (if trash_error e filename then log_op (OpTrash filename) st
              else log_op (OpTrash filename)
                     (st\<lparr>files := (files st)(filename := None),
                         trash_bin := trash_bin st @ [(filename, nd)]\<rparr>))
         | None \<Rightarrow> log_op (OpTrash filename) st)
      else
        (case files st filename of
           Some (File bs) \<Rightarrow>
             (if unlink_error e filename then log_op (OpUnlink filename) st
              else log_op (OpUnlink filename) (st\<lparr>files := (files st)(filename := None)\<rparr>))
         | _ \<Rightarrow> log_op (OpUnlink filename) st))"

definition copy :: "env \<Rightarrow> string \<Rightarrow> string \<Rightarrow> jstate \<Rightarrow> (pyexn + outcome) \<times> jstate" where
  "copy e s d st =
     (case copyfile e s d st of
        (Inl ex, st1) \<Rightarrow> (Inl ex, st1)
      | (Inr done, st1) \<Rightarrow>
          (let st2 = (if done = ON_SUCCESS then copy_stat s d st1 else st1);
               st3 = (if done = ON_CANCEL then delete_file e d False st2 else st2)
           in (Inr done, st3)))"

text \<open>\<^verbatim>\<open>Transfer.run\<close> returns nothing; \<open>Inl\<close> is an exception that leaves it.\<close>

definition run :: "env \<Rightarrow> jstate \<Rightarrow> (pyexn + unit) \<times> jstate" where
  "run e st =
     (if file_exists (files st) (src (self st)) (dst (self st)) then
        (let st1 = emit (Duplicate (dst (self st))) st;
             st2 = emit (Progress (job_id (self st1)) 100) st1;
             st3 = emit (Finished (job_id (self st2))) st2
         in (Inr (), st3))
      else
        (case copy e (src (self st)) (dst (self st)) st of
           (Inl ex, st1) \<Rightarrow> (Inl ex, st1)
         | (Inr _, st1) \<Rightarrow> (Inr (), st1)))"

subsection \<open>Event traces of the coordinator\<close>









subsection \<open>The mean, as the specification words it\<close>

text \<open>
  The specification's combined percentage: the arithmetic mean of the tracked per-job
  percentages, 0 when no job is tracked.
\<close>

definition spec_mean :: "rat list \<Rightarrow> rat" where
  "spec_mean ps = (if ps = [] then 0 else sum_list ps / of_nat (length ps))"

subsection \<open>Example inputs\<close>

text \<open>
  Three jobs with one source file: the first and the third go to the same destination,
  the second to another one.
\<close>

definition ex_job1 :: Transfer where
  "ex_job1 = \<lparr>src = ''/home/a.txt'', dst = ''/left/a.txt'', size_bytes = 10,
              running = False, job_id = ''j1''\<rparr>"

definition ex_job2 :: Transfer where
  "ex_job2 = \<lparr>src = ''/home/a.txt'', dst = ''/right/a.txt'', size_bytes = 30,
              running = False, job_id = ''j2''\<rparr>"

definition ex_job3 :: Transfer where
  "ex_job3 = \<lparr>src = ''/home/a.txt'', dst = ''/left/a.txt'', size_bytes = 10,
              running = False, job_id = ''j3''\<rparr>"

text \<open>
  Two jobs submitted to a fresh coordinator; then the same state while the first job runs
  and has reported 50 percent.
\<close>

definition ex_two_jobs :: WorkerManager where
  "ex_two_jobs = enqueue (enqueue init_manager ex_job1) ex_job2"

definition ex_busy :: WorkerManager where
  "ex_busy = (receive_progress ex_two_jobs ''j1'' 50)
               \<lparr>heap := (heap ex_two_jobs)(0 \<mapsto> ex_job1\<lparr>running := True\<rparr>)\<rparr>"

subsection \<open>Reading a job's run\<close>

text \<open>The percentages carried by the progress signals of a list of signals, in order.\<close>

fun progress_values :: "event list \<Rightarrow> rat list" where
  "progress_values [] = []"
| "progress_values (Progress j v # evs) = v # progress_values evs"
| "progress_values (Finished j # evs) = progress_values evs"
| "progress_values (Transferred j v # evs) = progress_values evs"
| "progress_values (Duplicate p # evs) = progress_values evs"

text \<open>The number of bytes written by a list of operations.\<close>

fun written :: "fs_op list \<Rightarrow> nat" where
  "written [] = 0"
| "written (OpWrite n # ops) = n + written ops"
| "written (OpRead n # ops) = written ops"
| "written (OpUnlink p # ops) = written ops"
| "written (OpTrash p # ops) = written ops"
| "written (OpCopystat p q # ops) = written ops"

text \<open>
  The state of \<^verbatim>\<open>_copyfileobj_readinto\<close> after one chunk of \<open>n\<close> bytes has been read,
  written and reported, before the \<^verbatim>\<open>running\<close> flag is tested.
\<close>

definition chunk_written :: "string \<Rightarrow> nat \<Rightarrow> nat \<Rightarrow> byte list \<Rightarrow> jstate \<Rightarrow> jstate" where
  "chunk_written fdst n progress' rest st =
     emit (Progress (job_id (self st)) (of_nat (progress' * 100) / of_nat (size_bytes (self st))))
       (emit (Transferred (job_id (self st)) (of_nat progress'))
          (fdst_write fdst (take n rest) (log_op (OpRead n) st)))"

subsection \<open>Example inputs for a job\<close>

text \<open>An environment in which nothing fails and nobody cancels, and variants of it.\<close>

definition ex_env :: env where
  "ex_env = \<lparr> rb_error = (\<lambda>p. None), wb_error = (\<lambda>p. None), read_error = (\<lambda>i. False),
              write_error = (\<lambda>i. False), stop_request = (\<lambda>i. False),
              unlink_error = (\<lambda>p. False), trash_error = (\<lambda>p. False) \<rparr>"

definition ex_env_denied :: env where
  "ex_env_denied = ex_env\<lparr>wb_error := (\<lambda>p. if p = ''/dst/a'' then Some PermissionError else None)\<rparr>"

definition ex_env_stop :: env where
  "ex_env_stop = ex_env\<lparr>stop_request := (\<lambda>i. True)\<rparr>"

definition ex_env_stop_stuck :: env where
  "ex_env_stop_stuck = ex_env\<lparr>stop_request := (\<lambda>i. True), unlink_error := (\<lambda>p. True)\<rparr>"

text \<open>
  A request to stop that arrives after the test of the first chunk: it is seen at the
  test of the second chunk, if there is one. The second variant also lets \<^verbatim>\<open>os.unlink\<close>
  fail.
\<close>

definition ex_env_late :: env where
  "ex_env_late = ex_env\<lparr>stop_request := (\<lambda>i. 1 \<le> i)\<rparr>"

definition ex_env_late_stuck :: env where
  "ex_env_late_stuck = ex_env\<lparr>stop_request := (\<lambda>i. 1 \<le> i), unlink_error := (\<lambda>p. True)\<rparr>"

text \<open>
  A small file system: a source file of three bytes, an empty source file, a destination
  directory that holds a subdirectory \<^verbatim>\<open>a\<close> and a file \<^verbatim>\<open>old.txt\<close>.
\<close>

definition ex_files :: "string \<rightharpoonup> node" where
  "ex_files = [''/x'' \<mapsto> Dir, ''/x/a'' \<mapsto> File [1, 2, 3], ''/x/empty'' \<mapsto> File [],
               ''/dst'' \<mapsto> Dir, ''/dst/a'' \<mapsto> Dir, ''/dst/old.txt'' \<mapsto> File [7]]"

text \<open>A job as \<^verbatim>\<open>Transfer(s, d, sz)\<close> constructs it, about to run.\<close>

definition ex_state :: "string \<Rightarrow> string \<Rightarrow> nat \<Rightarrow> jstate" where
  "ex_state s d sz =
     \<lparr> self = Transfer_init ex_files s d sz ''j1'', files = ex_files, trash_bin = [],
       emitted = [], oplog = [] \<rparr>"

text \<open>
  The same file system with a source of 3000000 bytes, more than two buffers of 1 MiB, and
  the job that copies it into \<^verbatim>\<open>/dst\<close>.
\<close>

definition ex_big_files :: "string \<rightharpoonup> node" where
  "ex_big_files = ex_files(''/x/big'' \<mapsto> File (replicate 3000000 0))"

definition ex_big_state :: jstate where
  "ex_big_state =
     \<lparr> self = Transfer_init ex_big_files ''/x/big'' ''/dst'' 3000000 ''j1'', files = ex_big_files,
       trash_bin = [], emitted = [], oplog = [] \<rparr>"

section \<open>Properties of the coordinator\<close>

subsection \<open>Submitting jobs\<close>

lemma enqueue_total:
  "total_workers (enqueue s w) = (if is_valid s w then total_workers s + 1 else total_workers s)"
  by (simp add: enqueue_def Let_def pool_start_def split: option.splits)


lemma enqueue_progress: "workers_progress (enqueue s w) = workers_progress s"
  by (simp add: enqueue_def Let_def pool_start_def split: option.splits)





lemma ex_two_jobs_eval:
  "ex_two_jobs = \<lparr> heap = [0 \<mapsto> ex_job1, 1 \<mapsto> ex_job2], next_ref = 2, workers_progress = [],
     active_workers = [(''j1'', 0), (''j2'', 1)], transferred = [], total_workers = 2, total_size = 40,
     duplicates = [], pool_running = Some 0, pool_queue = [1],
     connections = [(0, SigProgress, SlotReceiveProgress), (0, SigFinished, SlotDone),
                    (0, SigTransferred, SlotReceiveTransferred), (0, SigDuplicate, SlotReceiveDups),
                    (1, SigProgress, SlotReceiveProgress), (1, SigFinished, SlotDone),
                    (1, SigTransferred, SlotReceiveTransferred), (1, SigDuplicate, SlotReceiveDups)],
     visible = True, all_done_count = 0, dup_windows = [] \<rparr>"
  by (simp add: ex_two_jobs_def ex_job1_def ex_job2_def enqueue_def init_manager_def is_valid_def
        active_objs_def remaining_of_def pool_start_def Let_def List.map_filter_simps)

lemma ex_busy_eval:
  "ex_busy = \<lparr> heap = [0 \<mapsto> ex_job1\<lparr>running := True\<rparr>, 1 \<mapsto> ex_job2], next_ref = 2,
     workers_progress = [(''j1'', 50)],
     active_workers = [(''j1'', 0), (''j2'', 1)], transferred = [], total_workers = 2, total_size = 40,
     duplicates = [], pool_running = Some 0, pool_queue = [1],
     connections = [(0, SigProgress, SlotReceiveProgress), (0, SigFinished, SlotDone),
                    (0, SigTransferred, SlotReceiveTransferred), (0, SigDuplicate, SlotReceiveDups),
                    (1, SigProgress, SlotReceiveProgress), (1, SigFinished, SlotDone),
                    (1, SigTransferred, SlotReceiveTransferred), (1, SigDuplicate, SlotReceiveDups)],
     visible = True, all_done_count = 0, dup_windows = [] \<rparr>"
  unfolding ex_busy_def ex_two_jobs_eval by (simp add: receive_progress_def fun_upd_twist)

subsection \<open>A finished event for a job that is not registered\<close>

text \<open>
  Claim C1 says that \<^verbatim>\<open>done\<close> completes without raising for a job id that is absent
  from the active map, also while other jobs are registered. The guard before the
  \<^verbatim>\<open>del\<close> statement (commented \<^verbatim>\<open>avoid KeyError\<close>) tests only that the map is
  non-empty. Job \<open>j1\<close> is submitted, the batch is cancelled (which forgets \<open>j1\<close> while
  its copy still runs), job \<open>j2\<close> is submitted; then the finished event of \<open>j1\<close>
  arrives and raises \<^verbatim>\<open>KeyError\<close>.
\<close>

theorem done_job_absent_raises:
  "map fst (active_workers (enqueue (cancel (enqueue init_manager ex_job1)) ex_job2)) = [''j2''] \<and>
   done_job (enqueue (cancel (enqueue init_manager ex_job1)) ex_job2) ''j1'' = Inl KeyError"
  by (simp add: done_job_def cancel_def ex_job1_def ex_job2_def enqueue_def init_manager_def
        is_valid_def active_objs_def remaining_of_def pool_start_def stop_worker_def Let_def
        List.map_filter_simps)

subsection \<open>Submitting a pair that is already active\<close>

text \<open>
  Claim C4 says that submitting a job whose source and destination equal those of an
  active job changes nothing, also when several active jobs share the source path.
  \<^verbatim>\<open>is_valid\<close> keeps one active job per source path, the last one. With \<open>j1\<close> (to
  \<^verbatim>\<open>/left\<close>) and \<open>j2\<close> (to \<^verbatim>\<open>/right\<close>) active, the job \<open>j3\<close>, a copy of \<open>j1\<close>, is
  compared with \<open>j2\<close> only: it is accepted, counted, registered, queued and connected.
\<close>

theorem enqueue_duplicate_accepted:
  "(src ex_job3, dst ex_job3) = (src ex_job1, dst ex_job1) \<and>
   map fst (active_workers ex_two_jobs) = [''j1'', ''j2''] \<and>
   is_valid ex_two_jobs ex_job3 \<and>
   total_workers ex_two_jobs = 2 \<and> total_workers (enqueue ex_two_jobs ex_job3) = 3 \<and>
   total_size ex_two_jobs = 40 \<and> total_size (enqueue ex_two_jobs ex_job3) = 50 \<and>
   map fst (active_workers (enqueue ex_two_jobs ex_job3)) = [''j1'', ''j2'', ''j3''] \<and>
   pool_queue ex_two_jobs = [1] \<and> pool_queue (enqueue ex_two_jobs ex_job3) = [1, 2] \<and>
   length (connections (enqueue ex_two_jobs ex_job3)) = length (connections ex_two_jobs) + 4"
  unfolding ex_two_jobs_eval
  by (simp add: ex_job1_def ex_job2_def ex_job3_def enqueue_def is_valid_def
        active_objs_def remaining_of_def pool_start_def Let_def List.map_filter_simps)

subsection \<open>The combined percentage\<close>

text \<open>
  Claim C2 says that the combined percentage is the arithmetic mean of the tracked
  percentages. The code divides by the number of accepted jobs, not by the number of
  tracked ones: with two jobs submitted and only the first one reporting 50, the combined
  percentage is 25, the mean of the tracked percentages is 50.
\<close>

theorem calculate_progress_counterexample:
  "map snd (workers_progress (receive_progress ex_two_jobs ''j1'' 50)) = [50] \<and>
   calculate_progress (receive_progress ex_two_jobs ''j1'' 50) = 25 \<and>
   spec_mean (map snd (workers_progress (receive_progress ex_two_jobs ''j1'' 50))) = 50"
  unfolding ex_two_jobs_eval
  by (simp add: calculate_progress_def receive_progress_def spec_mean_def)

text \<open>
  Claim C2 as amended: the combined percentage is 0 when no percentage is tracked or no
  job is counted; otherwise it is the sum of the tracked percentages divided by the
  number of accepted jobs; it equals the arithmetic mean of the tracked percentages when
  as many jobs are tracked as are counted; and for two jobs accepted by a fresh
  coordinator that have both reported, it is the unweighted mean of the two percentages,
  whatever their sizes.
\<close>

theorem calculate_progress_sum_over_total:
  "(workers_progress s = [] \<or> total_workers s = 0 \<longrightarrow> calculate_progress s = 0) \<and>
   (workers_progress s \<noteq> [] \<and> total_workers s \<noteq> 0 \<longrightarrow>
      calculate_progress s * of_nat (total_workers s) = sum_list (map snd (workers_progress s))) \<and>
   (length (workers_progress s) = total_workers s \<longrightarrow>
      calculate_progress s = spec_mean (map snd (workers_progress s))) \<and>
   (is_valid (enqueue init_manager w1) w2 \<and> job_id w1 \<noteq> job_id w2 \<longrightarrow>
      calculate_progress
        (receive_progress
           (receive_progress (enqueue (enqueue init_manager w1) w2) (job_id w1) p1)
           (job_id w2) p2) = (p1 + p2) / 2)"
proof (intro conjI impI)
  assume "workers_progress s = [] \<or> total_workers s = 0"
  then show "calculate_progress s = 0" by (auto simp add: calculate_progress_def)
next
  assume "workers_progress s \<noteq> [] \<and> total_workers s \<noteq> 0"
  then show "calculate_progress s * of_nat (total_workers s) = sum_list (map snd (workers_progress s))"
    by (simp add: calculate_progress_def)
next
  assume "length (workers_progress s) = total_workers s"
  then show "calculate_progress s = spec_mean (map snd (workers_progress s))"
    by (auto simp add: calculate_progress_def spec_mean_def)
next
  assume a: "is_valid (enqueue init_manager w1) w2 \<and> job_id w1 \<noteq> job_id w2"
  have v1: "is_valid init_manager w1"
    by (simp add: is_valid_def init_manager_def active_objs_def remaining_of_def List.map_filter_simps)
  let ?s2 = "enqueue (enqueue init_manager w1) w2"
  have t: "total_workers ?s2 = 2"
    using a v1 by (simp add: enqueue_total init_manager_def)
  have p: "workers_progress ?s2 = []"
    by (simp add: enqueue_progress init_manager_def)
  show "calculate_progress
        (receive_progress (receive_progress ?s2 (job_id w1) p1) (job_id w2) p2) = (p1 + p2) / 2"
    using a t p by (simp add: calculate_progress_def receive_progress_def)
qed

theorem calculate_progress_sum_over_total_witness:
  "is_valid (enqueue init_manager ex_job1) ex_job2 \<and> job_id ex_job1 \<noteq> job_id ex_job2 \<and>
   calculate_progress
     (receive_progress (receive_progress ex_two_jobs ''j1'' 40) ''j2'' 80) = 60 \<and>
   spec_mean [40, 80] = 60 \<and>
   workers_progress ex_two_jobs = [] \<and> calculate_progress ex_two_jobs = 0 \<and>
   workers_progress (receive_progress ex_two_jobs ''j1'' 50) \<noteq> [] \<and>
   total_workers (receive_progress ex_two_jobs ''j1'' 50) \<noteq> 0 \<and>
   calculate_progress (receive_progress ex_two_jobs ''j1'' 50) * 2 = 50"
proof -
  have h1: "is_valid (enqueue init_manager ex_job1) ex_job2 \<and> job_id ex_job1 \<noteq> job_id ex_job2"
    by (simp add: ex_job1_def ex_job2_def enqueue_def init_manager_def is_valid_def
        active_objs_def remaining_of_def pool_start_def Let_def List.map_filter_simps)
  have h2: "workers_progress ex_two_jobs = []"
    unfolding ex_two_jobs_eval by simp
  have h3: "workers_progress (receive_progress ex_two_jobs ''j1'' 50) \<noteq> [] \<and>
            total_workers (receive_progress ex_two_jobs ''j1'' 50) \<noteq> 0"
    unfolding ex_two_jobs_eval by (simp add: receive_progress_def)
  have j: "job_id ex_job1 = ''j1''" "job_id ex_job2 = ''j2''"
    by (simp_all add: ex_job1_def ex_job2_def)
  have s: "spec_mean [40, 80] = 60" by (simp add: spec_mean_def)
  have t: "total_workers (receive_progress ex_two_jobs ''j1'' 50) = 2"
    unfolding ex_two_jobs_eval by (simp add: receive_progress_def)
  have m: "map snd (workers_progress (receive_progress ex_two_jobs ''j1'' 50)) = [50]"
    unfolding ex_two_jobs_eval by (simp add: receive_progress_def)
  from calculate_progress_sum_over_total[of ex_two_jobs ex_job1 ex_job2 40 80] h1 h2
  have c1: "calculate_progress ex_two_jobs = 0"
    and c2: "calculate_progress
       (receive_progress (receive_progress ex_two_jobs ''j1'' 40) ''j2'' 80) = 60"
    by (simp_all add: j ex_two_jobs_def)
  from calculate_progress_sum_over_total[of "receive_progress ex_two_jobs ''j1'' 50" ex_job1 ex_job2 0 0] h3
  have c3: "calculate_progress (receive_progress ex_two_jobs ''j1'' 50) * 2 = 50"
    by (simp add: t m)
  from h1 h2 h3 s c1 c2 c3 show ?thesis by simp
qed

subsection \<open>Global cancel\<close>

lemma stop_worker_apply:
  "stop_worker r' h r = (if r = r' then map_option (\<lambda>w. w\<lparr>running := False\<rparr>) (h r) else h r)"
  by (simp add: stop_worker_def split: option.splits)

lemma fold_stop_worker_apply:
  "fold stop_worker rs h r =
     (if r \<in> set rs then map_option (\<lambda>w. w\<lparr>running := False\<rparr>) (h r) else h r)"
proof (induction rs arbitrary: h)
  case Nil
  show ?case by simp
next
  case (Cons a rs)
  have "fold stop_worker (a # rs) h r = fold stop_worker rs (stop_worker a h) r"
    by simp
  also have "\<dots> = (if r \<in> set rs
        then map_option (\<lambda>w. w\<lparr>running := False\<rparr>) (stop_worker a h r)
        else stop_worker a h r)"
    by (rule Cons.IH)
  also have "\<dots> = (if r \<in> set (a # rs)
        then map_option (\<lambda>w. w\<lparr>running := False\<rparr>) (h r) else h r)"
    by (simp add: stop_worker_apply[of a h] option.map_comp comp_def)
  finally show ?case .
qed

lemma cancel_fields:
  "pool_queue (cancel s) = []"
  "active_workers (cancel s) = []"
  "workers_progress (cancel s) = workers_progress s"
  "transferred (cancel s) = transferred s"
  "total_workers (cancel s) = total_workers s"
  "total_size (cancel s) = total_size s"
  "heap (cancel s) = fold stop_worker (map snd (active_workers s)) (heap s)"
  by (simp_all add: cancel_def Let_def)

text \<open>
  Claim C10: \<^verbatim>\<open>cancel\<close> empties the pool's queue and the active map and clears the
  \<^verbatim>\<open>running\<close> flag of every job the active map held (and of no other object); the
  percentage map, the bytes map, the job count and the byte volume are unchanged, so the
  combined percentage and the transferred total are the same as before. The state stays
  that way under a later finished event unless every tracked percentage is 100; then that
  event clears the two maps and the two totals.
\<close>

theorem cancel_frame:
  "pool_queue (cancel s) = [] \<and> active_workers (cancel s) = [] \<and>
   (\<forall>(j, r) \<in> set (active_workers s). \<forall>w. heap s r = Some w \<longrightarrow>
        heap (cancel s) r = Some (w\<lparr>running := False\<rparr>)) \<and>
   (\<forall>r. r \<notin> snd ` set (active_workers s) \<longrightarrow> heap (cancel s) r = heap s r) \<and>
   workers_progress (cancel s) = workers_progress s \<and>
   transferred (cancel s) = transferred s \<and>
   total_workers (cancel s) = total_workers s \<and>
   total_size (cancel s) = total_size s \<and>
   calculate_progress (cancel s) = calculate_progress s \<and>
   calculate_transferred (cancel s) = calculate_transferred s \<and>
   (\<not> list_all (\<lambda>v. v = 100) (map snd (workers_progress s)) \<longrightarrow>
        done_job (cancel s) j = Inr (cancel s)) \<and>
   (list_all (\<lambda>v. v = 100) (map snd (workers_progress s)) \<longrightarrow>
        map_sum id (\<lambda>s'. (workers_progress s', transferred s', total_workers s', total_size s'))
          (done_job (cancel s) j) = Inr ([], [], 0, 0))"
proof (intro conjI)
  show "\<forall>(j, r) \<in> set (active_workers s). \<forall>w. heap s r = Some w \<longrightarrow>
        heap (cancel s) r = Some (w\<lparr>running := False\<rparr>)"
    by (auto simp add: cancel_fields fold_stop_worker_apply intro: rev_image_eqI)
  show "\<forall>r. r \<notin> snd ` set (active_workers s) \<longrightarrow> heap (cancel s) r = heap s r"
    by (simp add: cancel_fields fold_stop_worker_apply)
  show "\<not> list_all (\<lambda>v. v = 100) (map snd (workers_progress s)) \<longrightarrow>
        done_job (cancel s) j = Inr (cancel s)"
    by (simp add: done_job_def cancel_fields)
  show "list_all (\<lambda>v. v = 100) (map snd (workers_progress s)) \<longrightarrow>
        map_sum id (\<lambda>s'. (workers_progress s', transferred s', total_workers s', total_size s'))
          (done_job (cancel s) j) = Inr ([], [], 0, 0)"
    by (simp add: done_job_def cancel_fields handle_dups_def Let_def)
qed (simp_all add: cancel_fields calculate_progress_def calculate_transferred_def)

theorem cancel_frame_witness:
  "active_workers ex_busy = [(''j1'', 0), (''j2'', 1)] \<and>
   pool_queue ex_busy = [1] \<and> pool_queue (cancel ex_busy) = [] \<and>
   heap ex_busy 0 = Some (ex_job1\<lparr>running := True\<rparr>) \<and>
   heap (cancel ex_busy) 0 = Some (ex_job1\<lparr>running := False\<rparr>) \<and>
   heap ex_busy 1 = Some ex_job2 \<and>
   heap (cancel ex_busy) 1 = Some (ex_job2\<lparr>running := False\<rparr>) \<and>
   2 \<notin> snd ` set (active_workers ex_busy) \<and> heap (cancel ex_busy) 2 = heap ex_busy 2 \<and>
   workers_progress (cancel ex_busy) = [(''j1'', 50)] \<and>
   calculate_progress (cancel ex_busy) = 25 \<and>
   \<not> list_all (\<lambda>v. v = 100) (map snd (workers_progress ex_busy)) \<and>
   done_job (cancel ex_busy) ''j1'' = Inr (cancel ex_busy) \<and>
   list_all (\<lambda>v. v = 100) (map snd (workers_progress (receive_progress ex_busy ''j1'' 100))) \<and>
   map_sum id (\<lambda>s'. (workers_progress s', transferred s', total_workers s', total_size s'))
     (done_job (cancel (receive_progress ex_busy ''j1'' 100)) ''j1'') = Inr ([], [], 0, 0)"
proof -
  have a: "active_workers ex_busy = [(''j1'', 0), (''j2'', 1)]" "pool_queue ex_busy = [1]"
    "heap ex_busy 0 = Some (ex_job1\<lparr>running := True\<rparr>)" "heap ex_busy 1 = Some ex_job2"
    "heap ex_busy (Suc 0) = Some ex_job2"
    "heap ex_busy 2 = None" "workers_progress ex_busy = [(''j1'', 50)]"
    "total_workers ex_busy = 2"
    unfolding ex_busy_eval by simp_all
  have c: "calculate_progress ex_busy = 25"
    by (simp add: calculate_progress_def a)
  have b: "workers_progress (receive_progress ex_busy ''j1'' 100) = [(''j1'', 100)]"
    by (simp add: receive_progress_def a)
  from cancel_frame[of ex_busy "''j1''"] cancel_frame[of "receive_progress ex_busy ''j1'' 100" "''j1''"]
  show ?thesis
    by (simp add: a b c)
qed

subsection \<open>A batch of jobs that all reach 100\<close>
























section \<open>Properties of a job\<close>

subsection \<open>State components and one iteration of the loops\<close>

declare readinto_loop.simps [simp del]

declare read_loop.simps [simp del]

lemma emit_fields [simp]:
  "self (emit ev st) = self st" "files (emit ev st) = files st"
  "trash_bin (emit ev st) = trash_bin st" "oplog (emit ev st) = oplog st"
  "emitted (emit ev st) = emitted st @ [ev]"
  by (simp_all add: emit_def)

lemma log_op_fields [simp]:
  "self (log_op op st) = self st" "files (log_op op st) = files st"
  "trash_bin (log_op op st) = trash_bin st" "oplog (log_op op st) = oplog st @ [op]"
  "emitted (log_op op st) = emitted st"
  by (simp_all add: log_op_def)

lemma set_running_fields [simp]:
  "self (set_running b st) = (self st)\<lparr>running := b\<rparr>" "files (set_running b st) = files st"
  "trash_bin (set_running b st) = trash_bin st" "oplog (set_running b st) = oplog st"
  "emitted (set_running b st) = emitted st"
  by (simp_all add: set_running_def)

lemma fdst_write_fields [simp]:
  "self (fdst_write p c st) = self st"
  "trash_bin (fdst_write p c st) = trash_bin st"
  "oplog (fdst_write p c st) = oplog st @ [OpWrite (length c)]"
  "emitted (fdst_write p c st) = emitted st"
  by (simp_all add: fdst_write_def)

lemma fdst_write_files:
  "files st p = Some (File bs) \<Longrightarrow> files (fdst_write p c st) = (files st)(p \<mapsto> File (bs @ c))"
  by (simp add: fdst_write_def)

lemma chunk_written_fields [simp]:
  "self (chunk_written fdst n p' rest st) = self st"
  "trash_bin (chunk_written fdst n p' rest st) = trash_bin st"
  "oplog (chunk_written fdst n p' rest st) = oplog st @ [OpRead n, OpWrite (length (take n rest))]"
  "emitted (chunk_written fdst n p' rest st) = emitted st @
      [Transferred (job_id (self st)) (of_nat p'),
       Progress (job_id (self st)) (of_nat (p' * 100) / of_nat (size_bytes (self st)))]"
  by (simp_all add: chunk_written_def)

lemma chunk_written_files:
  "files st fdst = Some (File bs) \<Longrightarrow>
   files (chunk_written fdst n p' rest st) = (files st)(fdst \<mapsto> File (bs @ take n rest))"
  by (simp add: chunk_written_def fdst_write_files)

lemma on_exception_eq:
  "on_exception st =
     (ON_ERROR, emit (Finished (job_id (self st))) (emit (Progress (job_id (self st)) 100)
        (set_running False st)))"
  by (simp add: on_exception_def Let_def)

lemma min_len_zero: "(min len (length rest) = 0) = (len = 0 \<or> rest = [])"
  by (auto simp: min_def)

lemma readinto_loop_read_error:
  "read_error e i \<Longrightarrow> readinto_loop e fdst len i progress rest st = on_exception st"
  by (simp add: readinto_loop.simps)

lemma readinto_loop_eof:
  "\<not> read_error e i \<Longrightarrow> min len (length rest) = 0 \<Longrightarrow>
   readinto_loop e fdst len i progress rest st =
     (ON_SUCCESS, set_running False (emit (Finished (job_id (self st))) (log_op (OpRead 0) st)))"
  by (simp add: readinto_loop.simps[of e fdst len i progress rest st] Let_def min_len_zero)

lemma readinto_loop_write_error:
  "\<not> read_error e i \<Longrightarrow> min len (length rest) \<noteq> 0 \<Longrightarrow> write_error e i \<Longrightarrow>
   readinto_loop e fdst len i progress rest st =
     on_exception (log_op (OpRead (min len (length rest))) st)"
  by (simp add: readinto_loop.simps[of e fdst len i progress rest st] Let_def min_len_zero)

lemma take_min_len: "\<not> min len (length rest) < len \<Longrightarrow> take len rest = take (min len (length rest)) rest"
  by (simp add: min_def split: if_splits)

lemma readinto_loop_chunk:
  assumes "\<not> read_error e i" "min len (length rest) \<noteq> 0" "\<not> write_error e i"
    "size_bytes (self st) \<noteq> 0"
  shows "readinto_loop e fdst len i progress rest st =
     (let n = min len (length rest);
          st3 = chunk_written fdst n (progress + n) rest st;
          st4 = (if stop_request e i then set_running False st3 else st3)
      in if \<not> running (self st4) then
           (ON_CANCEL, emit (Finished (job_id (self st))) (emit (Progress (job_id (self st)) 100) st4))
         else readinto_loop e fdst len (Suc i) (progress + n) (drop n rest) st4)"
proof -
  have w: "(if min len (length rest) < len
            then fdst_write fdst (take (min len (length rest)) rest) (log_op (OpRead (min len (length rest))) st)
            else fdst_write fdst (take len rest) (log_op (OpRead (min len (length rest))) st))
          = fdst_write fdst (take (min len (length rest)) rest) (log_op (OpRead (min len (length rest))) st)"
    using take_min_len[of len rest] by simp
  show ?thesis
    using assms
    apply (subst readinto_loop.simps)
    apply (simp only: Let_def w)
    apply (simp add: chunk_written_def min_len_zero)
    done
qed

lemma readinto_loop_zero_size:
  "\<not> read_error e i \<Longrightarrow> min len (length rest) \<noteq> 0 \<Longrightarrow> \<not> write_error e i \<Longrightarrow>
   size_bytes (self st) = 0 \<Longrightarrow>
   readinto_loop e fdst len i progress rest st =
     on_exception (fdst_write fdst (take (min len (length rest)) rest)
                     (log_op (OpRead (min len (length rest))) st))"
  using take_min_len[of len rest]
  by (simp add: readinto_loop.simps[of e fdst len i progress rest st] Let_def min_len_zero)

lemma read_loop_eof:
  "\<not> read_error e i \<Longrightarrow> len = 0 \<or> rest = [] \<Longrightarrow>
   read_loop e fdst len i progress rest st =
     (ON_SUCCESS, set_running False (emit (Finished (job_id (self st))) (log_op (OpRead 0) st)))"
  by (auto simp add: read_loop.simps[of e fdst len i progress rest st] Let_def)

lemma ex_files_lookup:
  "ex_files ''/x/a'' = Some (File [1, 2, 3])" "ex_files ''/x/empty'' = Some (File [])"
  "ex_files ''/dst'' = Some Dir" "ex_files ''/dst/a'' = Some Dir"
  "ex_files ''/dst/old.txt'' = Some (File [7])" "ex_files ''/dst/a/a'' = None"
  "ex_files ''/dst/empty'' = None" "ex_files ''/dst/b'' = None" "ex_files ''/dst/b.txt'' = None"
  by (simp_all add: ex_files_def)

lemma ex_paths:
  "os_join ''/dst'' (basename_strip ''/x/a'') = ''/dst/a''"
  "os_join ''/dst/a'' (basename_strip ''/x/a'') = ''/dst/a/a''"
  "os_join ''/dst'' (basename_strip ''/x/empty'') = ''/dst/empty''"
  by (simp_all add: os_join_def basename_strip_def os_basename_def rstrip_sep_def)

lemma run_duplicate_path:
  assumes "file_exists (files st) (src (self st)) (dst (self st))"
  shows "run e st =
     (Inr (), st\<lparr>emitted := emitted st @
        [Duplicate (dst (self st)), Progress (job_id (self st)) 100, Finished (job_id (self st))]\<rparr>)"
  using assms by (simp add: run_def Let_def emit_def)

lemma file_exists_regular:
  "path_exists fs d \<Longrightarrow> \<not> isdir fs d \<Longrightarrow> file_exists fs s d"
  by (simp add: file_exists_def Let_def)

subsection \<open>A destination that already exists\<close>

text \<open>
  Claim C7 says that every job whose resolved destination path exists skips the copy and
  emits the duplicate event with that path, progress 100 and finished. \<^verbatim>\<open>run\<close> means
  to test \<^verbatim>\<open>self.dst\<close> (it prints and emits that path), but \<^verbatim>\<open>file_exists\<close> resolves
  a destination that is a directory once more and tests one level below. The job
  \<^verbatim>\<open>Transfer('/x/a', '/dst', 3)\<close> has the resolved destination \<^verbatim>\<open>/dst/a\<close>, which
  exists and is a directory without an entry \<^verbatim>\<open>a\<close>: \<^verbatim>\<open>file_exists\<close> answers no, the
  job goes on to copy, and opening the directory for writing fails. No duplicate event is
  emitted: when the failure is \<^verbatim>\<open>IsADirectoryError\<close> it leaves \<^verbatim>\<open>run\<close> and nothing is
  emitted at all, when it is \<^verbatim>\<open>PermissionError\<close> the job reports progress 100 and
  finished only.
\<close>

theorem run_existing_directory_not_reported:
  "dst (self (ex_state ''/x/a'' ''/dst'' 3)) = ''/dst/a'' \<and>
   path_exists (files (ex_state ''/x/a'' ''/dst'' 3)) (dst (self (ex_state ''/x/a'' ''/dst'' 3))) \<and>
   \<not> file_exists (files (ex_state ''/x/a'' ''/dst'' 3)) ''/x/a'' ''/dst/a'' \<and>
   run ex_env (ex_state ''/x/a'' ''/dst'' 3) = (Inl IsADirectoryError, ex_state ''/x/a'' ''/dst'' 3) \<and>
   emitted (ex_state ''/x/a'' ''/dst'' 3) = [] \<and>
   emitted (snd (run ex_env_denied (ex_state ''/x/a'' ''/dst'' 3))) =
     [Progress ''j1'' 100, Finished ''j1'']"
  by (simp add: ex_state_def Transfer_init_def isdir_def path_exists_def ex_files_lookup ex_paths
        run_def file_exists_def copy_def copyfile_def open_rb_def open_wb_def copyfile_handler_def
        ex_env_def ex_env_denied_def Let_def emit_def)

subsection \<open>Permission errors when opening\<close>

text \<open>
  Claim C8: when \<^verbatim>\<open>open\<close> of the source raises \<^verbatim>\<open>PermissionError\<close>, or the source opens
  and \<^verbatim>\<open>open\<close> of the destination raises it, \<^verbatim>\<open>copy\<close> returns \<^verbatim>\<open>ON_ERROR\<close> after
  emitting progress 100 and finished and nothing else; the file system and the operation
  log are unchanged, so no deletion is attempted.
\<close>

theorem copy_permission_error:
  assumes "open_rb e (files st) s = Inl PermissionError \<or>
           (open_rb e (files st) s = Inr () \<and> open_wb e (files st) d = Inl PermissionError)"
  shows "copy e s d st =
     (Inr ON_ERROR, st\<lparr>emitted := emitted st @
        [Progress (job_id (self st)) 100, Finished (job_id (self st))]\<rparr>)"
proof -
  have "copyfile e s d st = copyfile_handler PermissionError st"
    using assms by (auto simp add: copyfile_def)
  then show ?thesis
    by (simp add: copy_def copyfile_handler_def Let_def emit_def)
qed

theorem copy_permission_error_witness:
  "open_rb ex_env (files (ex_state ''/x/a'' ''/dst'' 3)) ''/x/a'' = Inr () \<and>
   open_wb ex_env_denied (files (ex_state ''/x/a'' ''/dst'' 3)) ''/dst/a'' = Inl PermissionError \<and>
   copy ex_env_denied ''/x/a'' ''/dst/a'' (ex_state ''/x/a'' ''/dst'' 3) =
     (Inr ON_ERROR, (ex_state ''/x/a'' ''/dst'' 3)\<lparr>emitted := [Progress ''j1'' 100, Finished ''j1'']\<rparr>)"
proof -
  let ?st = "ex_state ''/x/a'' ''/dst'' 3"
  have f: "files ?st = ex_files" "emitted ?st = []" "job_id (self ?st) = ''j1''"
    by (simp_all add: ex_state_def Transfer_init_def)
  have h1: "open_rb ex_env (files ?st) ''/x/a'' = Inr ()"
    by (simp add: f open_rb_def ex_env_def ex_files_lookup)
  have h1': "open_rb ex_env_denied (files ?st) ''/x/a'' = Inr ()"
    by (simp add: f open_rb_def ex_env_def ex_env_denied_def ex_files_lookup)
  have h2: "open_wb ex_env_denied (files ?st) ''/dst/a'' = Inl PermissionError"
    by (simp add: f open_wb_def ex_env_def ex_env_denied_def)
  from copy_permission_error[of ex_env_denied ?st "''/x/a''" "''/dst/a''"] h1' h2
  have "copy ex_env_denied ''/x/a'' ''/dst/a'' ?st =
     (Inr ON_ERROR, ?st\<lparr>emitted := emitted ?st @
        [Progress (job_id (self ?st)) 100, Finished (job_id (self ?st))]\<rparr>)"
    by simp
  with h1 h2 show ?thesis by (simp add: f)
qed

subsection \<open>A source of size zero\<close>

text \<open>
  Claim C3 says that a zero-size copy emits exactly one progress event, of 100, and runs
  no read loop. \<^verbatim>\<open>_copyfile\<close> sends a job of size 0 into \<^verbatim>\<open>_copyfileobj\<close>, whose loop
  reads once, gets no bytes, emits finished and returns \<^verbatim>\<open>ON_SUCCESS\<close>: the signals are
  the finished signal alone, with no progress signal among them.
\<close>

theorem copyfile_zero_size_counterexample:
  "size_bytes (self (ex_state ''/x/empty'' ''/dst'' 0)) = 0 \<and>
   fst (copyfile ex_env ''/x/empty'' ''/dst/empty'' (ex_state ''/x/empty'' ''/dst'' 0)) = Inr ON_SUCCESS \<and>
   emitted (snd (copyfile ex_env ''/x/empty'' ''/dst/empty'' (ex_state ''/x/empty'' ''/dst'' 0)))
     = [Finished ''j1''] \<and>
   progress_values
     (emitted (snd (copyfile ex_env ''/x/empty'' ''/dst/empty'' (ex_state ''/x/empty'' ''/dst'' 0))))
     = [] \<and>
   oplog (snd (copyfile ex_env ''/x/empty'' ''/dst/empty'' (ex_state ''/x/empty'' ''/dst'' 0)))
     = [OpRead 0]"
  by (simp add: ex_state_def Transfer_init_def isdir_def ex_files_lookup ex_paths
        copyfile_def open_rb_def open_wb_def file_bytes_def copyfileobj_def
        read_loop.simps[of _ _ _ _ _ "[]"]
        ex_env_def Let_def emit_def log_op_def set_running_def)

text \<open>
  Claim C3 as amended: for a job of declared size 0 whose source is an empty regular file
  that opens, whose destination opens, and whose first read does not fail, \<^verbatim>\<open>_copyfile\<close>
  returns \<^verbatim>\<open>ON_SUCCESS\<close>; it emits the finished signal and no other signal, performs one
  read, which returns no bytes, and no write; the destination is an empty file.
\<close>

theorem copyfile_zero_size:
  assumes "size_bytes (self st) = 0"
    and "files st s = Some (File [])" and "rb_error e s = None"
    and "wb_error e d = None" and "files st d \<noteq> Some Dir"
    and "\<not> read_error e 0"
  shows "copyfile e s d st =
     (Inr ON_SUCCESS,
      st\<lparr>self := (self st)\<lparr>running := False\<rparr>, files := (files st)(d \<mapsto> File []),
         emitted := emitted st @ [Finished (job_id (self st))],
         oplog := oplog st @ [OpRead 0]\<rparr>)"
proof -
  have r: "open_rb e (files st) s = Inr ()"
    using assms by (simp add: open_rb_def)
  have w: "open_wb e (files st) d = Inr ((files st)(d \<mapsto> File []))"
    using assms by (simp add: open_wb_def split: option.splits node.splits)
  have b: "file_bytes ((files st)(d \<mapsto> File [])) s = []"
    using assms by (simp add: file_bytes_def)
  show ?thesis
    using assms(1,6)
    by (simp add: copyfile_def r w b copyfileobj_def read_loop_eof Let_def
          emit_def log_op_def set_running_def)
qed

theorem copyfile_zero_size_witness:
  "size_bytes (self (ex_state ''/x/empty'' ''/dst'' 0)) = 0 \<and>
   files (ex_state ''/x/empty'' ''/dst'' 0) ''/x/empty'' = Some (File []) \<and>
   files (ex_state ''/x/empty'' ''/dst'' 0) ''/dst/empty'' \<noteq> Some Dir \<and>
   copyfile ex_env ''/x/empty'' ''/dst/empty'' (ex_state ''/x/empty'' ''/dst'' 0) =
     (Inr ON_SUCCESS,
      (ex_state ''/x/empty'' ''/dst'' 0)
        \<lparr>files := ex_files(''/dst/empty'' \<mapsto> File []), emitted := [Finished ''j1''],
         oplog := [OpRead 0]\<rparr>)"
proof -
  let ?st = "ex_state ''/x/empty'' ''/dst'' 0"
  have f: "files ?st = ex_files" "emitted ?st = []" "oplog ?st = []" "job_id (self ?st) = ''j1''"
    "size_bytes (self ?st) = 0" "running (self ?st) = False"
    by (simp_all add: ex_state_def Transfer_init_def)
  have h2: "files ?st ''/x/empty'' = Some (File [])" by (simp add: f ex_files_lookup)
  have h3: "rb_error ex_env ''/x/empty'' = None" "wb_error ex_env ''/dst/empty'' = None"
    "\<not> read_error ex_env 0" by (simp_all add: ex_env_def)
  have h4: "files ?st ''/dst/empty'' \<noteq> Some Dir" by (simp add: f ex_files_lookup)
  have same: "(self ?st)\<lparr>running := False\<rparr> = self ?st"
    by (simp add: ex_state_def Transfer_init_def)
  from copyfile_zero_size[of ?st "''/x/empty''" ex_env "''/dst/empty''", OF f(5) h2 h3(1) h3(2) h4 h3(3)]
  have "copyfile ex_env ''/x/empty'' ''/dst/empty'' ?st =
     (Inr ON_SUCCESS,
      ?st\<lparr>self := (self ?st)\<lparr>running := False\<rparr>, files := (files ?st)(''/dst/empty'' \<mapsto> File []),
         emitted := emitted ?st @ [Finished (job_id (self ?st))],
         oplog := oplog ?st @ [OpRead 0]\<rparr>)" .
  then have "copyfile ex_env ''/x/empty'' ''/dst/empty'' ?st =
     (Inr ON_SUCCESS,
      ?st\<lparr>files := ex_files(''/dst/empty'' \<mapsto> File []), emitted := [Finished ''j1''],
         oplog := [OpRead 0]\<rparr>)"
    by (simp add: f same)
  with f(5) h2 h4 show ?thesis by simp
qed

subsection \<open>Percentages of one copy loop never decrease\<close>

lemma pct_mono:
  "a \<le> b \<Longrightarrow> (of_nat (a * 100) :: rat) / of_nat s \<le> of_nat (b * 100) / of_nat s"
  by (simp add: divide_right_mono)

lemma pct_le_100:
  assumes "0 < s" "b \<le> s"
  shows "(of_nat (b * 100) :: rat) / of_nat s \<le> 100"
proof -
  have "(of_nat (b * 100) :: rat) \<le> of_nat (s * 100)"
    using assms(2) by simp
  then have "(of_nat (b * 100) :: rat) / of_nat s \<le> of_nat (s * 100) / of_nat s"
    by (rule divide_right_mono) simp
  also have "\<dots> = 100" using assms(1) by simp
  finally show ?thesis .
qed

lemma pct_full: "0 < s \<Longrightarrow> (of_nat (s * 100) :: rat) / of_nat s = 100"
  by simp

lemma progress_values_append:
  "progress_values (xs @ ys) = progress_values xs @ progress_values ys"
  by (induction xs rule: progress_values.induct) simp_all

text \<open>
  The loop invariant: \<open>progress\<close> bytes are copied and \<open>rest\<close> are left, together the
  declared size. Every percentage still to come lies between the current one and 100, the
  percentages to come are ascending, and when bytes are left the last one is 100.
\<close>

lemma readinto_loop_progress:
  "0 < size_bytes (self st) \<Longrightarrow> 0 < len \<Longrightarrow>
   progress + length rest = size_bytes (self st) \<Longrightarrow>
   \<exists>new. emitted (snd (readinto_loop e fdst len i progress rest st)) = emitted st @ new \<and>
         sorted (progress_values new) \<and>
         (\<forall>v \<in> set (progress_values new).
             of_nat (progress * 100) / of_nat (size_bytes (self st)) \<le> v \<and> v \<le> 100) \<and>
         (rest \<noteq> [] \<longrightarrow> progress_values new \<noteq> [] \<and> last (progress_values new) = 100)"
proof (induction "length rest" arbitrary: rest progress i st rule: less_induct)
  case less
  let ?sz = "size_bytes (self st)"
  let ?jid = "job_id (self st)"
  let ?lo = "(of_nat (progress * 100) :: rat) / of_nat ?sz"
  from less.prems have sz: "0 < ?sz" and len: "0 < len" and inv: "progress + length rest = ?sz"
    by simp_all
  from inv have ple: "progress \<le> ?sz" by simp
  have lo100: "?lo \<le> 100" by (rule pct_le_100[OF sz ple])
  have err: "\<And>st' :: jstate. self st' = self st \<Longrightarrow> emitted st' = emitted st \<Longrightarrow>
      \<exists>new. emitted (snd (on_exception st')) = emitted st @ new \<and>
         sorted (progress_values new) \<and>
         (\<forall>v \<in> set (progress_values new). ?lo \<le> v \<and> v \<le> 100) \<and>
         (rest \<noteq> [] \<longrightarrow> progress_values new \<noteq> [] \<and> last (progress_values new) = 100)"
  proof -
    fix st' :: jstate assume a: "self st' = self st" "emitted st' = emitted st"
    have "emitted (snd (on_exception st')) = emitted st @ [Progress ?jid 100, Finished ?jid]"
      by (simp add: on_exception_eq a)
    moreover have "sorted (progress_values [Progress ?jid 100, Finished ?jid])" by simp
    moreover have "\<forall>v \<in> set (progress_values [Progress ?jid 100, Finished ?jid]). ?lo \<le> v \<and> v \<le> 100"
      using lo100 by simp
    moreover have "progress_values [Progress ?jid 100, Finished ?jid] \<noteq> [] \<and>
        last (progress_values [Progress ?jid 100, Finished ?jid]) = 100" by simp
    ultimately show "\<exists>new. emitted (snd (on_exception st')) = emitted st @ new \<and>
         sorted (progress_values new) \<and>
         (\<forall>v \<in> set (progress_values new). ?lo \<le> v \<and> v \<le> 100) \<and>
         (rest \<noteq> [] \<longrightarrow> progress_values new \<noteq> [] \<and> last (progress_values new) = 100)"
      by blast
  qed
  show ?case
  proof (cases "read_error e i")
    case True
    then have "readinto_loop e fdst len i progress rest st = on_exception st"
      by (rule readinto_loop_read_error)
    with err[of st] show ?thesis by simp
  next
    case nre: False
    show ?thesis
    proof (cases "rest = []")
      case True
      then have "min len (length rest) = 0" by simp
      from readinto_loop_eof[OF nre this]
      have "emitted (snd (readinto_loop e fdst len i progress rest st)) = emitted st @ [Finished ?jid]"
        by simp
      moreover have "sorted (progress_values [Finished ?jid])" by simp
      ultimately show ?thesis using True by auto
    next
      case ne: False
      let ?n = "min len (length rest)"
      from ne len have npos: "?n \<noteq> 0" by (simp add: min_len_zero)
      show ?thesis
      proof (cases "write_error e i")
        case True
        from readinto_loop_write_error[OF nre npos True]
        have "readinto_loop e fdst len i progress rest st = on_exception (log_op (OpRead ?n) st)" .
        with err[of "log_op (OpRead ?n) st"] show ?thesis by simp
      next
        case nwe: False
        let ?p' = "progress + ?n"
        let ?pct = "(of_nat (?p' * 100) :: rat) / of_nat ?sz"
        let ?st3 = "chunk_written fdst ?n ?p' rest st"
        let ?st4 = "if stop_request e i then set_running False ?st3 else ?st3"
        from sz have sz0: "?sz \<noteq> 0" by simp
        have p'le: "?p' \<le> ?sz" using inv by simp
        have lo_pct: "?lo \<le> ?pct" by (rule pct_mono) simp
        have pct100: "?pct \<le> 100" by (rule pct_le_100[OF sz p'le])
        have em3: "emitted ?st4 = emitted st @ [Transferred ?jid (of_nat ?p'), Progress ?jid ?pct]"
          by simp
        have self4: "size_bytes (self ?st4) = ?sz" "job_id (self ?st4) = ?jid" by simp_all
        note unfold = readinto_loop_chunk[OF nre npos nwe sz0, of fdst progress, unfolded Let_def]
        show ?thesis
        proof (cases "running (self ?st4)")
          case False
          with unfold have
            "readinto_loop e fdst len i progress rest st =
               (ON_CANCEL, emit (Finished ?jid) (emit (Progress ?jid 100) ?st4))"
            by simp
          then have "emitted (snd (readinto_loop e fdst len i progress rest st)) =
              emitted st @ [Transferred ?jid (of_nat ?p'), Progress ?jid ?pct,
                            Progress ?jid 100, Finished ?jid]"
            using em3 by simp
          moreover have "sorted (progress_values [Transferred ?jid (of_nat ?p'), Progress ?jid ?pct,
                            Progress ?jid 100, Finished ?jid])"
            using pct100 by simp
          moreover have "\<forall>v \<in> set (progress_values [Transferred ?jid (of_nat ?p'), Progress ?jid ?pct,
                            Progress ?jid 100, Finished ?jid]). ?lo \<le> v \<and> v \<le> 100"
            using lo_pct pct100 lo100 by simp
          moreover have "progress_values [Transferred ?jid (of_nat ?p'), Progress ?jid ?pct,
                            Progress ?jid 100, Finished ?jid] \<noteq> [] \<and>
                last (progress_values [Transferred ?jid (of_nat ?p'), Progress ?jid ?pct,
                            Progress ?jid 100, Finished ?jid]) = 100"
            by simp
          ultimately show ?thesis by blast
        next
          case True
          let ?rest' = "drop ?n rest"
          from True unfold have step:
            "readinto_loop e fdst len i progress rest st =
               readinto_loop e fdst len (Suc i) ?p' ?rest' ?st4"
            by simp
          have shorter: "length ?rest' < length rest" using npos ne by simp
          have inv': "?p' + length ?rest' = size_bytes (self ?st4)"
            using inv by (simp add: self4)
          have sz': "0 < size_bytes (self ?st4)" using sz by (simp add: self4)
          from less.hyps[OF shorter sz' len inv', of "Suc i"] obtain new' where
            ih: "emitted (snd (readinto_loop e fdst len (Suc i) ?p' ?rest' ?st4)) = emitted ?st4 @ new' \<and>
                 sorted (progress_values new') \<and>
                 (\<forall>v \<in> set (progress_values new').
                    of_nat (?p' * 100) / of_nat (size_bytes (self ?st4)) \<le> v \<and> v \<le> 100) \<and>
                 (?rest' \<noteq> [] \<longrightarrow> progress_values new' \<noteq> [] \<and> last (progress_values new') = 100)" ..
          from ih have e': "emitted (snd (readinto_loop e fdst len (Suc i) ?p' ?rest' ?st4)) = emitted ?st4 @ new'"
            by (rule conjunct1)
          from ih have s': "sorted (progress_values new')"
            by (elim conjE)
          from ih have b': "\<forall>v \<in> set (progress_values new'). ?pct \<le> v \<and> v \<le> 100"
            unfolding self4 by (elim conjE)
          from ih have l': "?rest' \<noteq> [] \<longrightarrow> progress_values new' \<noteq> [] \<and> last (progress_values new') = 100"
            by (elim conjE)
          let ?new = "[Transferred ?jid (of_nat ?p'), Progress ?jid ?pct] @ new'"
          have pv: "progress_values ?new = ?pct # progress_values new'" by simp
          have c1: "emitted (snd (readinto_loop e fdst len i progress rest st)) = emitted st @ ?new"
            using step e' em3 by simp
          have c2: "sorted (progress_values ?new)"
            unfolding pv using s' b' by simp
          have c3: "\<forall>v \<in> set (progress_values ?new). ?lo \<le> v \<and> v \<le> 100"
            unfolding pv using b' lo_pct pct100 by auto
          have c4: "progress_values ?new \<noteq> [] \<and> last (progress_values ?new) = 100"
          proof (cases "?rest' = []")
            case False
            with l' show ?thesis unfolding pv by simp
          next
            case True
            then have "?p' = ?sz" using inv by simp
            then have full: "?pct = 100" using sz by simp
            show ?thesis
            proof (cases "progress_values new' = []")
              case True
              then show ?thesis unfolding pv using full by simp
            next
              case False
              then have "last (progress_values new') \<in> set (progress_values new')" by simp
              with b' full have "last (progress_values new') = 100" by auto
              with False show ?thesis unfolding pv by simp
            qed
          qed
          from c1 c2 c3 c4 show ?thesis by blast
        qed
      qed
    qed
  qed
qed

lemma copyfileobj_readinto_progress:
  assumes "size_bytes (self st) = length fsrc" and "0 < size_bytes (self st)" and "0 < len"
  shows "\<exists>new. emitted (snd (copyfileobj_readinto e fsrc fdst len st)) = emitted st @ new \<and>
           sorted (progress_values new) \<and> progress_values new \<noteq> [] \<and>
           last (progress_values new) = 100"
proof -
  let ?st0 = "set_running True st"
  have "0 < size_bytes (self ?st0)" "0 + length fsrc = size_bytes (self ?st0)"
    using assms by simp_all
  from readinto_loop_progress[OF this(1) assms(3) this(2), of e fdst 0] obtain new where
    n: "emitted (snd (readinto_loop e fdst len 0 0 fsrc ?st0)) = emitted ?st0 @ new \<and>
         sorted (progress_values new) \<and>
         (\<forall>v \<in> set (progress_values new).
             of_nat (0 * 100) / of_nat (size_bytes (self ?st0)) \<le> v \<and> v \<le> 100) \<and>
         (fsrc \<noteq> [] \<longrightarrow> progress_values new \<noteq> [] \<and> last (progress_values new) = 100)" ..
  moreover have "fsrc \<noteq> []" using assms by auto
  ultimately have "emitted (snd (copyfileobj_readinto e fsrc fdst len st)) = emitted st @ new \<and>
           sorted (progress_values new) \<and> progress_values new \<noteq> [] \<and>
           last (progress_values new) = 100"
    by (simp add: copyfileobj_readinto_def)
  then show ?thesis ..
qed

subsection \<open>Cancelling a copy\<close>

lemma written_append: "written (xs @ ys) = written xs + written ys"
  by (induction xs rule: written.induct) simp_all

text \<open>
  The flag is found cleared at the test that follows chunk \<open>k\<close>; from iteration \<open>i\<close> there
  are \<open>d\<close> more chunks before that one, the source has them, and no read or write fails
  up to there.
\<close>

lemma readinto_loop_cancel:
  "k = i + d \<Longrightarrow> stop_request e k \<Longrightarrow> (\<forall>j. i \<le> j \<and> j < k \<longrightarrow> \<not> stop_request e j) \<Longrightarrow>
   (\<forall>j. i \<le> j \<and> j \<le> k \<longrightarrow> \<not> read_error e j \<and> \<not> write_error e j) \<Longrightarrow>
   d * len < length rest \<Longrightarrow> 0 < len \<Longrightarrow> 0 < size_bytes (self st) \<Longrightarrow>
   running (self st) \<Longrightarrow> files st fdst = Some (File c) \<Longrightarrow>
   \<exists>st' evs ops.
      readinto_loop e fdst len i progress rest st = (ON_CANCEL, st') \<and>
      emitted st' = emitted st @ evs @ [Progress (job_id (self st)) 100, Finished (job_id (self st))] \<and>
      files st' = (files st)(fdst \<mapsto> File (c @ take (Suc d * len) rest)) \<and>
      oplog st' = oplog st @ ops \<and> written ops = min (Suc d * len) (length rest) \<and>
      trash_bin st' = trash_bin st \<and>
      self st' = (self st)\<lparr>running := False\<rparr>"
proof (induction d arbitrary: i progress rest st c)
  case 0
  let ?n = "min len (length rest)"
  let ?jid = "job_id (self st)"
  from 0 have ki: "k = i" by simp
  from 0 have ne: "rest \<noteq> []" by auto
  with 0 have npos: "?n \<noteq> 0" by (simp add: min_len_zero)
  from 0 ki have nre: "\<not> read_error e i" and nwe: "\<not> write_error e i" by simp_all
  from 0 have sz0: "size_bytes (self st) \<noteq> 0" by simp
  from 0 ki have stop: "stop_request e i" by simp
  let ?st3 = "chunk_written fdst ?n (progress + ?n) rest st"
  let ?st' = "emit (Finished ?jid) (emit (Progress ?jid 100) (set_running False ?st3))"
  from readinto_loop_chunk[OF nre npos nwe sz0, of fdst progress] stop
  have r: "readinto_loop e fdst len i progress rest st = (ON_CANCEL, ?st')"
    by (simp add: Let_def)
  have e: "emitted ?st' = emitted st @
      [Transferred ?jid (of_nat (progress + ?n)),
       Progress ?jid (of_nat ((progress + ?n) * 100) / of_nat (size_bytes (self st)))] @
      [Progress ?jid 100, Finished ?jid]"
    by simp
  have tk: "take ?n rest = take (Suc 0 * len) rest" by (simp add: min_def)
  have f: "files ?st' = (files st)(fdst \<mapsto> File (c @ take (Suc 0 * len) rest))"
    using chunk_written_files[OF "0.prems"(9), of ?n "progress + ?n" rest] tk by simp
  have o: "oplog ?st' = oplog st @ [OpRead ?n, OpWrite (length (take ?n rest))]" by simp
  have w: "written [OpRead ?n, OpWrite (length (take ?n rest))] = min (Suc 0 * len) (length rest)"
    by simp
  have t: "trash_bin ?st' = trash_bin st" by simp
  have s: "self ?st' = (self st)\<lparr>running := False\<rparr>" by simp
  from r e f o w t s show ?case by blast
next
  case (Suc d)
  let ?jid = "job_id (self st)"
  from Suc.prems(5) have "len + d * len < length rest" by simp
  then have lt: "len < length rest" by simp
  then have n: "min len (length rest) = len" by simp
  from Suc.prems have len: "0 < len" by simp
  from Suc.prems have nre: "\<not> read_error e i" and nwe: "\<not> write_error e i" by simp_all
  from Suc.prems have sz0: "size_bytes (self st) \<noteq> 0" by simp
  from Suc.prems have nostop: "\<not> stop_request e i" by simp
  from len n have npos: "min len (length rest) \<noteq> 0" by simp
  let ?st3 = "chunk_written fdst len (progress + len) rest st"
  from readinto_loop_chunk[OF nre npos nwe sz0, of fdst progress] nostop Suc.prems(8)
  have step: "readinto_loop e fdst len i progress rest st =
      readinto_loop e fdst len (Suc i) (progress + len) (drop len rest) ?st3"
    by (simp add: Let_def n)
  have k': "k = Suc i + d" using Suc.prems(1) by simp
  have a3: "\<forall>j. Suc i \<le> j \<and> j < k \<longrightarrow> \<not> stop_request e j" using Suc.prems(3) by simp
  have a4: "\<forall>j. Suc i \<le> j \<and> j \<le> k \<longrightarrow> \<not> read_error e j \<and> \<not> write_error e j"
    using Suc.prems(4) by simp
  have a5: "d * len < length (drop len rest)" using Suc.prems(5) by simp
  have a7: "0 < size_bytes (self ?st3)" using Suc.prems(7) by simp
  have a8: "running (self ?st3)" using Suc.prems(8) by simp
  have a9: "files ?st3 fdst = Some (File (c @ take len rest))"
    using chunk_written_files[OF Suc.prems(9), of len "progress + len" rest] by simp
  from Suc.IH[OF k' Suc.prems(2) a3 a4 a5 len a7 a8 a9, of "progress + len"]
  obtain st' evs ops where
    ih: "readinto_loop e fdst len (Suc i) (progress + len) (drop len rest) ?st3 = (ON_CANCEL, st') \<and>
      emitted st' = emitted ?st3 @ evs @ [Progress (job_id (self ?st3)) 100, Finished (job_id (self ?st3))] \<and>
      files st' = (files ?st3)(fdst \<mapsto> File ((c @ take len rest) @ take (Suc d * len) (drop len rest))) \<and>
      oplog st' = oplog ?st3 @ ops \<and> written ops = min (Suc d * len) (length (drop len rest)) \<and>
      trash_bin st' = trash_bin ?st3 \<and>
      self st' = (self ?st3)\<lparr>running := False\<rparr>"
    by blast
  let ?evs = "[Transferred ?jid (of_nat (progress + len)),
       Progress ?jid (of_nat ((progress + len) * 100) / of_nat (size_bytes (self st)))] @ evs"
  let ?ops = "[OpRead len, OpWrite (length (take len rest))] @ ops"
  have r: "readinto_loop e fdst len i progress rest st = (ON_CANCEL, st')"
    using step ih by simp
  have e: "emitted st' = emitted st @ ?evs @ [Progress ?jid 100, Finished ?jid]"
    using ih by simp
  have tk: "take len rest @ take (Suc d * len) (drop len rest) = take (Suc (Suc d) * len) rest"
    using take_add[of len "Suc d * len" rest] by (simp add: add.commute)
  have f3: "files ?st3 = (files st)(fdst \<mapsto> File (c @ take len rest))"
    using chunk_written_files[OF Suc.prems(9), of len "progress + len" rest] by simp
  have f: "files st' = (files st)(fdst \<mapsto> File (c @ take (Suc (Suc d) * len) rest))"
    using ih f3 tk by simp
  have o: "oplog st' = oplog st @ ?ops" using ih by simp
  from ih have wops: "written ops = min (Suc d * len) (length rest - len)" by simp
  have ar: "len + min (Suc d * len) (length rest - len) = min (Suc (Suc d) * len) (length rest)"
    using lt by (auto simp add: min_def)
  have w: "written ?ops = min (Suc (Suc d) * len) (length rest)"
    using wops ar lt by simp
  have t: "trash_bin st' = trash_bin st" using ih by simp
  have s: "self st' = (self st)\<lparr>running := False\<rparr>" using ih by simp
  from r e f o w t s show ?case by blast
qed

lemma open_wb_result: "open_wb e fs d = Inr fs' \<Longrightarrow> fs' = fs(d \<mapsto> File [])"
  by (auto simp add: open_wb_def split: option.splits node.splits)

lemma ex_big_lookup:
  "ex_big_files ''/x/big'' = Some (File (replicate 3000000 0))" "ex_big_files ''/dst/big'' = None"
  "ex_big_files ''/dst'' = Some Dir"
  by (simp_all add: ex_big_files_def ex_files_def)

lemma ex_big_state_fields:
  "files ex_big_state = ex_big_files" "size_bytes (self ex_big_state) = 3000000"
  "trash_bin ex_big_state = []" "oplog ex_big_state = []" "emitted ex_big_state = []"
  "dst (self ex_big_state) = ''/dst/big''" "src (self ex_big_state) = ''/x/big''"
  by (simp_all add: ex_big_state_def Transfer_init_def isdir_def ex_big_lookup
        os_join_def basename_strip_def os_basename_def rstrip_sep_def)

text \<open>
  Claim C6 says that after a cancellation requested between the first chunk and the end
  of the stream the job returns \<^verbatim>\<open>ON_CANCEL\<close> and the destination path does not exist.
  Two runs on a source of three bytes show otherwise. In the first the flag is seen at the
  test of the only chunk and \<^verbatim>\<open>os.unlink\<close> raises: \<^verbatim>\<open>delete_file\<close> prints a message
  and the file stays. In the second the request arrives after that test and before the
  read that finds the end of the stream: the flag is never tested again, the copy returns
  \<^verbatim>\<open>ON_SUCCESS\<close> with no further progress event, and the complete file stays.
\<close>

theorem copy_cancel_unlink_fails_counterexample:
  "stop_request ex_env_stop_stuck 0 \<and>
   fst (copy ex_env_stop_stuck ''/x/a'' ''/dst/b'' (ex_state ''/x/a'' ''/dst/b'' 3)) = Inr ON_CANCEL \<and>
   emitted (snd (copy ex_env_stop_stuck ''/x/a'' ''/dst/b'' (ex_state ''/x/a'' ''/dst/b'' 3))) =
     [Transferred ''j1'' 3, Progress ''j1'' 100, Progress ''j1'' 100, Finished ''j1''] \<and>
   oplog (snd (copy ex_env_stop_stuck ''/x/a'' ''/dst/b'' (ex_state ''/x/a'' ''/dst/b'' 3))) =
     [OpRead 3, OpWrite 3, OpUnlink ''/dst/b''] \<and>
   files (snd (copy ex_env_stop_stuck ''/x/a'' ''/dst/b'' (ex_state ''/x/a'' ''/dst/b'' 3))) ''/dst/b''
     = Some (File [1, 2, 3]) \<and>
   path_exists (files (snd (copy ex_env_stop_stuck ''/x/a'' ''/dst/b'' (ex_state ''/x/a'' ''/dst/b'' 3)))) ''/dst/b'' \<and>
   \<not> stop_request ex_env_late 0 \<and> stop_request ex_env_late 1 \<and>
   fst (copy ex_env_late ''/x/a'' ''/dst/b'' (ex_state ''/x/a'' ''/dst/b'' 3)) = Inr ON_SUCCESS \<and>
   emitted (snd (copy ex_env_late ''/x/a'' ''/dst/b'' (ex_state ''/x/a'' ''/dst/b'' 3))) =
     [Transferred ''j1'' 3, Progress ''j1'' 100, Finished ''j1''] \<and>
   oplog (snd (copy ex_env_late ''/x/a'' ''/dst/b'' (ex_state ''/x/a'' ''/dst/b'' 3))) =
     [OpRead 3, OpWrite 3, OpRead 0, OpCopystat ''/x/a'' ''/dst/b''] \<and>
   files (snd (copy ex_env_late ''/x/a'' ''/dst/b'' (ex_state ''/x/a'' ''/dst/b'' 3))) ''/dst/b''
     = Some (File [1, 2, 3])"
  by (simp add: ex_state_def Transfer_init_def isdir_def ex_files_lookup copy_def copyfile_def
        open_rb_def open_wb_def file_bytes_def copyfileobj_readinto_def
        readinto_loop.simps[of _ _ _ 0] readinto_loop.simps[of _ _ _ "Suc 0"]
        ex_env_stop_stuck_def ex_env_late_def ex_env_def Let_def emit_def
        log_op_def set_running_def fdst_write_def delete_file_def copy_stat_def path_exists_def)

text \<open>
  Claim C6 as amended. The declared size is positive and both files open; the cleared flag
  is first seen at the test that follows chunk \<open>k\<close>, the source yields that chunk, and no
  read or write fails up to it. Then \<^verbatim>\<open>copy\<close> returns \<^verbatim>\<open>ON_CANCEL\<close>; its last two
  signals are progress 100 and finished; the bytes written are those of the chunks up to
  \<open>k\<close> and the last operation is the \<^verbatim>\<open>unlink\<close> of the destination (nothing goes to the
  trash). When that \<^verbatim>\<open>unlink\<close> does not raise, the destination path does not exist
  afterwards; when it raises, the destination stays, holding the bytes of the chunks up
  to \<open>k\<close>. The rest of the file system is as before.
\<close>

theorem copy_cancel_deletes_partial:
  assumes sz: "0 < size_bytes (self st)"
    and rb: "open_rb e (files st) s = Inr ()"
    and wb: "open_wb e (files st) d = Inr fs'"
    and stop: "stop_request e k"
    and before: "\<forall>j. j < k \<longrightarrow> \<not> stop_request e j"
    and noerr: "\<forall>j. j \<le> k \<longrightarrow> \<not> read_error e j \<and> \<not> write_error e j"
    and chunk: "k * min 1048576 (size_bytes (self st)) < length (file_bytes fs' s)"
  shows "\<exists>st' evs ops.
      copy e s d st = (Inr ON_CANCEL, st') \<and>
      emitted st' = emitted st @ evs @ [Progress (job_id (self st)) 100, Finished (job_id (self st))] \<and>
      oplog st' = oplog st @ ops @ [OpUnlink d] \<and>
      written ops = min (Suc k * min 1048576 (size_bytes (self st))) (length (file_bytes fs' s)) \<and>
      files st' =
        (if unlink_error e d
         then (files st)(d \<mapsto> File (take (Suc k * min 1048576 (size_bytes (self st)))
                                        (file_bytes fs' s)))
         else (files st)(d := None)) \<and>
      path_exists (files st') d = unlink_error e d \<and>
      trash_bin st' = trash_bin st"
proof -
  let ?len = "min 1048576 (size_bytes (self st))"
  let ?st1 = "set_running True (st\<lparr>files := fs'\<rparr>)"
  let ?jid = "job_id (self st)"
  let ?part = "take (Suc k * ?len) (file_bytes fs' s)"
  from open_wb_result[OF wb] have fs': "fs' = (files st)(d \<mapsto> File [])" .
  have len: "0 < ?len" using sz by simp
  have a1: "k = 0 + k" by simp
  have a3: "\<forall>j. 0 \<le> j \<and> j < k \<longrightarrow> \<not> stop_request e j" using before by simp
  have a4: "\<forall>j. 0 \<le> j \<and> j \<le> k \<longrightarrow> \<not> read_error e j \<and> \<not> write_error e j" using noerr by simp
  have a7: "0 < size_bytes (self ?st1)" using sz by simp
  have a8: "running (self ?st1)" by simp
  have a9: "files ?st1 d = Some (File [])" by (simp add: fs')
  from readinto_loop_cancel[OF a1 stop a3 a4 chunk len a7 a8 a9, of 0]
  obtain st2 evs ops where
    l: "readinto_loop e d ?len 0 0 (file_bytes fs' s) ?st1 = (ON_CANCEL, st2) \<and>
      emitted st2 = emitted ?st1 @ evs @ [Progress (job_id (self ?st1)) 100, Finished (job_id (self ?st1))] \<and>
      files st2 = (files ?st1)(d \<mapsto> File ([] @ take (Suc k * ?len) (file_bytes fs' s))) \<and>
      oplog st2 = oplog ?st1 @ ops \<and> written ops = min (Suc k * ?len) (length (file_bytes fs' s)) \<and>
      trash_bin st2 = trash_bin ?st1 \<and>
      self st2 = (self ?st1)\<lparr>running := False\<rparr>"
    by blast
  then have loop: "readinto_loop e d ?len 0 0 (file_bytes fs' s) ?st1 = (ON_CANCEL, st2)"
    by (rule conjunct1)
  have cf: "copyfile e s d st = (Inr ON_CANCEL, st2)"
    using sz by (simp add: copyfile_def rb wb Let_def copyfileobj_readinto_def loop)
  let ?st' = "delete_file e d False st2"
  have cp: "copy e s d st = (Inr ON_CANCEL, ?st')"
    by (simp add: copy_def cf Let_def)
  from l have fs2: "files st2 = (files st)(d \<mapsto> File ?part)" by (simp add: fs')
  then have f2: "files st2 d = Some (File ?part)" by simp
  have del: "?st' = (if unlink_error e d then log_op (OpUnlink d) st2
                     else log_op (OpUnlink d) (st2\<lparr>files := (files st2)(d := None)\<rparr>))"
    using f2 by (simp add: delete_file_def)
  have e: "emitted ?st' = emitted st @ evs @ [Progress ?jid 100, Finished ?jid]"
    using l by (simp add: del)
  have o: "oplog ?st' = oplog st @ ops @ [OpUnlink d]"
    using l by (simp add: del)
  have w: "written ops = min (Suc k * ?len) (length (file_bytes fs' s))"
    using l by simp
  have f: "files ?st' = (if unlink_error e d then (files st)(d \<mapsto> File ?part)
                         else (files st)(d := None))"
    by (simp add: del fs2)
  have p: "path_exists (files ?st') d = unlink_error e d" by (simp add: f path_exists_def)
  have t: "trash_bin ?st' = trash_bin st" using l by (simp add: del)
  from cp e o w f p t show ?thesis by blast
qed

theorem copy_cancel_deletes_partial_witness:
  "0 < size_bytes (self ex_big_state) \<and>
   open_rb ex_env_late (files ex_big_state) ''/x/big'' = Inr () \<and>
   open_wb ex_env_late (files ex_big_state) ''/dst/big'' = Inr (ex_big_files(''/dst/big'' \<mapsto> File [])) \<and>
   stop_request ex_env_late 1 \<and> \<not> stop_request ex_env_late 0 \<and>
   1 * min 1048576 (size_bytes (self ex_big_state))
     < length (file_bytes (ex_big_files(''/dst/big'' \<mapsto> File [])) ''/x/big'') \<and>
   \<not> unlink_error ex_env_late ''/dst/big'' \<and>
   fst (copy ex_env_late ''/x/big'' ''/dst/big'' ex_big_state) = Inr ON_CANCEL \<and>
   written (oplog (snd (copy ex_env_late ''/x/big'' ''/dst/big'' ex_big_state))) = 2097152 \<and>
   \<not> path_exists (files (snd (copy ex_env_late ''/x/big'' ''/dst/big'' ex_big_state))) ''/dst/big'' \<and>
   trash_bin (snd (copy ex_env_late ''/x/big'' ''/dst/big'' ex_big_state)) = [] \<and>
   unlink_error ex_env_late_stuck ''/dst/big'' \<and>
   files (snd (copy ex_env_late_stuck ''/x/big'' ''/dst/big'' ex_big_state)) ''/dst/big''
     = Some (File (replicate 2097152 0))"
proof -
  let ?st = ex_big_state
  let ?fs' = "ex_big_files(''/dst/big'' \<mapsto> File [])"
  let ?e2 = ex_env_late_stuck
  note f = ex_big_state_fields
  have h1: "0 < size_bytes (self ?st)" by (simp add: f)
  have h2: "open_rb ex_env_late (files ?st) ''/x/big'' = Inr ()"
    "open_rb ?e2 (files ?st) ''/x/big'' = Inr ()"
    by (simp_all add: f open_rb_def ex_env_late_def ex_env_late_stuck_def ex_env_def ex_big_lookup)
  have h3: "open_wb ex_env_late (files ?st) ''/dst/big'' = Inr ?fs'"
    "open_wb ?e2 (files ?st) ''/dst/big'' = Inr ?fs'"
    by (simp_all add: f open_wb_def ex_env_late_def ex_env_late_stuck_def ex_env_def ex_big_lookup)
  have h4: "stop_request ex_env_late 1" "stop_request ?e2 1"
    by (simp_all add: ex_env_late_def ex_env_late_stuck_def)
  have h4': "\<not> stop_request ex_env_late 0" by (simp add: ex_env_late_def)
  have h5: "\<forall>j. j < (1::nat) \<longrightarrow> \<not> stop_request ex_env_late j"
    "\<forall>j. j < (1::nat) \<longrightarrow> \<not> stop_request ?e2 j"
    by (simp_all add: ex_env_late_def ex_env_late_stuck_def)
  have h6: "\<forall>j. j \<le> (1::nat) \<longrightarrow> \<not> read_error ex_env_late j \<and> \<not> write_error ex_env_late j"
    "\<forall>j. j \<le> (1::nat) \<longrightarrow> \<not> read_error ?e2 j \<and> \<not> write_error ?e2 j"
    by (simp_all add: ex_env_late_def ex_env_late_stuck_def ex_env_def)
  have bytes: "file_bytes ?fs' ''/x/big'' = replicate 3000000 0"
    by (simp add: file_bytes_def ex_big_lookup)
  have h7: "1 * min 1048576 (size_bytes (self ?st)) < length (file_bytes ?fs' ''/x/big'')"
    by (simp add: bytes f)
  have h8: "\<not> unlink_error ex_env_late ''/dst/big''" "unlink_error ?e2 ''/dst/big''"
    by (simp_all add: ex_env_late_def ex_env_late_stuck_def ex_env_def)
  from copy_cancel_deletes_partial[OF h1 h2(1) h3(1) h4(1) h5(1) h6(1) h7]
  obtain st' evs ops where
    c: "copy ex_env_late ''/x/big'' ''/dst/big'' ?st = (Inr ON_CANCEL, st')" and
    o: "oplog st' = oplog ?st @ ops @ [OpUnlink ''/dst/big'']" and
    w: "written ops = min (Suc 1 * min 1048576 (size_bytes (self ?st))) (length (file_bytes ?fs' ''/x/big''))" and
    p: "path_exists (files st') ''/dst/big'' = unlink_error ex_env_late ''/dst/big''" and
    t: "trash_bin st' = trash_bin ?st"
    by blast
  have w': "written (oplog st') = 2097152"
    using o w by (simp add: written_append f bytes)
  from copy_cancel_deletes_partial[OF h1 h2(2) h3(2) h4(2) h5(2) h6(2) h7]
  obtain st'' evs' ops' where
    c2: "copy ?e2 ''/x/big'' ''/dst/big'' ?st = (Inr ON_CANCEL, st'')" and
    f2: "files st'' =
        (if unlink_error ?e2 ''/dst/big''
         then (files ?st)(''/dst/big'' \<mapsto> File (take (Suc 1 * min 1048576 (size_bytes (self ?st)))
                                        (file_bytes ?fs' ''/x/big'')))
         else (files ?st)(''/dst/big'' := None))"
    by blast
  have kept: "files st'' ''/dst/big'' = Some (File (replicate 2097152 0))"
    using h8(2) by (simp add: f2 bytes f)
  from h1 h2(1) h3(1) h4(1) h4' h7 h8 c w' p t c2 kept show ?thesis
    by (simp add: f)
qed

subsection \<open>Percentages of one job never decrease\<close>

lemma read_loop_read_error:
  "read_error e i \<Longrightarrow> read_loop e fdst len i progress rest st = on_exception st"
  by (simp add: read_loop.simps)

lemma delete_file_emitted: "emitted (delete_file e d t st) = emitted st"
  by (simp add: delete_file_def split: option.splits node.splits)

lemma copy_stat_emitted: "emitted (copy_stat s d st) = emitted st"
  by (simp add: copy_stat_def)

lemma copy_emitted:
  "emitted (snd (copy e s d st)) = emitted (snd (copyfile e s d st))"
  "(\<exists>r. fst (copy e s d st) = Inr r) = (\<exists>r. fst (copyfile e s d st) = Inr r)"
proof -
  obtain a st1 where c: "copyfile e s d st = (a, st1)" by (cases "copyfile e s d st")
  show "emitted (snd (copy e s d st)) = emitted (snd (copyfile e s d st))"
    by (cases a) (simp_all add: copy_def c Let_def delete_file_emitted copy_stat_emitted)
  show "(\<exists>r. fst (copy e s d st) = Inr r) = (\<exists>r. fst (copyfile e s d st) = Inr r)"
    by (cases a) (simp_all add: copy_def c Let_def)
qed

lemma run_copy_path:
  assumes "\<not> file_exists (files st) (src (self st)) (dst (self st))"
  shows "emitted (snd (run e st)) = emitted (snd (copy e (src (self st)) (dst (self st)) st))"
    and "(fst (run e st) = Inr ()) = (\<exists>r. fst (copy e (src (self st)) (dst (self st)) st) = Inr r)"
proof -
  obtain a st1 where c: "copy e (src (self st)) (dst (self st)) st = (a, st1)"
    by (cases "copy e (src (self st)) (dst (self st)) st")
  show "emitted (snd (run e st)) = emitted (snd (copy e (src (self st)) (dst (self st)) st))"
    using assms by (cases a) (simp_all add: run_def c)
  show "(fst (run e st) = Inr ()) = (\<exists>r. fst (copy e (src (self st)) (dst (self st)) st) = Inr r)"
    using assms by (cases a) (simp_all add: run_def c)
qed

lemma copyfile_handler_progress:
  "\<exists>new. emitted (snd (copyfile_handler ex st)) = emitted st @ new \<and>
         sorted (progress_values new) \<and>
         (progress_values new \<noteq> [] \<longrightarrow> last (progress_values new) = 100) \<and>
         ((\<exists>r. fst (copyfile_handler ex st) = Inr r) \<longrightarrow> progress_values new \<noteq> [])"
proof (cases "ex = PermissionError")
  case True
  let ?new = "[Progress (job_id (self st)) 100, Finished (job_id (self st))]"
  have "emitted (snd (copyfile_handler ex st)) = emitted st @ ?new"
    using True by (simp add: copyfile_handler_def Let_def)
  moreover have "sorted (progress_values ?new)" by simp
  moreover have "progress_values ?new \<noteq> [] \<and> last (progress_values ?new) = 100" by simp
  ultimately show ?thesis by blast
next
  case False
  have "emitted (snd (copyfile_handler ex st)) = emitted st @ []"
    using False by (simp add: copyfile_handler_def)
  moreover have "\<not> (\<exists>r. fst (copyfile_handler ex st) = Inr r)"
    using False by (simp add: copyfile_handler_def)
  moreover have "sorted (progress_values [])" by simp
  ultimately show ?thesis by (intro exI[of _ "[]"]) simp
qed

lemma source_not_destination:
  assumes "files st s = Some (File bs)" and "\<not> file_exists (files st) s d"
  shows "s \<noteq> d"
proof
  assume "s = d"
  with assms(1) have "path_exists (files st) d" "\<not> isdir (files st) d"
    by (simp_all add: path_exists_def isdir_def)
  then have "file_exists (files st) s d" by (rule file_exists_regular)
  with assms(2) show False by simp
qed

lemma copyfile_progress:
  assumes sz: "\<forall>bs. files st s = Some (File bs) \<longrightarrow> length bs = size_bytes (self st)"
    and nd: "\<not> file_exists (files st) s d"
  shows "\<exists>new. emitted (snd (copyfile e s d st)) = emitted st @ new \<and>
           sorted (progress_values new) \<and>
           (progress_values new \<noteq> [] \<longrightarrow> last (progress_values new) = 100) \<and>
           (0 < size_bytes (self st) \<and> (\<exists>r. fst (copyfile e s d st) = Inr r)
              \<longrightarrow> progress_values new \<noteq> [])"
proof (cases "open_rb e (files st) s")
  case (Inl ex)
  then have "copyfile e s d st = copyfile_handler ex st" by (simp add: copyfile_def)
  with copyfile_handler_progress[of ex st] show ?thesis by auto
next
  case (Inr u)
  then obtain bs where src_file: "files st s = Some (File bs)"
    by (auto simp add: open_rb_def split: option.splits node.splits)
  with sz have len_bs: "length bs = size_bytes (self st)" by simp
  from source_not_destination[OF src_file nd] have sd: "s \<noteq> d" .
  show ?thesis
  proof (cases "open_wb e (files st) d")
    case (Inl ex)
    then have "copyfile e s d st = copyfile_handler ex st" by (simp add: copyfile_def Inr)
    with copyfile_handler_progress[of ex st] show ?thesis by auto
  next
    case wb: (Inr fs')
    from open_wb_result[OF wb] have fs': "fs' = (files st)(d \<mapsto> File [])" .
    have bytes: "file_bytes fs' s = bs" using sd src_file by (simp add: fs' file_bytes_def)
    let ?st1 = "st\<lparr>files := fs'\<rparr>"
    show ?thesis
    proof (cases "0 < size_bytes (self st)")
      case True
      let ?r = "copyfileobj_readinto e bs d (min 1048576 (size_bytes (self st))) ?st1"
      have cf: "copyfile e s d st = (Inr (fst ?r), snd ?r)"
        using True by (simp add: copyfile_def Inr wb bytes Let_def case_prod_beta)
      have a1: "size_bytes (self ?st1) = length bs" using len_bs by simp
      have a2: "0 < size_bytes (self ?st1)" using True by simp
      have a3: "0 < min 1048576 (size_bytes (self st))" using True by simp
      from copyfileobj_readinto_progress[OF a1 a2 a3, of e d] obtain new where
        n: "emitted (snd ?r) = emitted ?st1 @ new \<and>
            sorted (progress_values new) \<and> progress_values new \<noteq> [] \<and>
            last (progress_values new) = 100" ..
      then have "emitted (snd (copyfile e s d st)) = emitted st @ new \<and>
           sorted (progress_values new) \<and>
           (progress_values new \<noteq> [] \<longrightarrow> last (progress_values new) = 100) \<and>
           (0 < size_bytes (self st) \<and> (\<exists>r. fst (copyfile e s d st) = Inr r)
              \<longrightarrow> progress_values new \<noteq> [])"
        by (simp add: cf)
      then show ?thesis ..
    next
      case False
      then have z: "size_bytes (self st) = 0" by simp
      with len_bs have empty: "bs = []" by simp
      let ?st2 = "set_running True ?st1"
      have cf: "copyfile e s d st =
          (Inr (fst (read_loop e d 1048576 0 0 [] ?st2)), snd (read_loop e d 1048576 0 0 [] ?st2))"
        using z by (simp add: copyfile_def Inr wb bytes empty Let_def case_prod_beta copyfileobj_def)
      show ?thesis
      proof (cases "read_error e 0")
        case True
        let ?new = "[Progress (job_id (self st)) 100, Finished (job_id (self st))]"
        have "emitted (snd (copyfile e s d st)) = emitted st @ ?new"
          by (simp add: cf read_loop_read_error[OF True] on_exception_eq)
        moreover have "sorted (progress_values ?new)" by simp
        moreover have "progress_values ?new \<noteq> [] \<and> last (progress_values ?new) = 100" by simp
        ultimately show ?thesis by blast
      next
        case nre: False
        have "emitted (snd (copyfile e s d st)) = emitted st @ [Finished (job_id (self st))]"
          by (simp add: cf read_loop_eof[OF nre])
        moreover have "sorted (progress_values [Finished (job_id (self st))])" by simp
        ultimately show ?thesis using z
          by (intro exI[of _ "[Finished (job_id (self st))]"]) simp
      qed
    qed
  qed
qed

lemma copyfile_returns:
  "open_rb e (files st) s = Inr () \<Longrightarrow> open_wb e (files st) d = Inr fs' \<Longrightarrow>
   \<exists>r. fst (copyfile e s d st) = Inr r"
  by (simp add: copyfile_def Let_def case_prod_beta)

text \<open>
  Claim C9 says that the percentages of a job whose declared size is the number of bytes
  of its source never decrease and that the final value is 100 on success, cancel and
  error alike. A job of size 0 whose source is empty succeeds with the finished signal
  alone: it emits no percentage at all, so on this success there is no final value of 100.
\<close>

theorem run_zero_size_no_progress_counterexample:
  "files (ex_state ''/x/empty'' ''/dst'' 0) (src (self (ex_state ''/x/empty'' ''/dst'' 0)))
     = Some (File []) \<and>
   size_bytes (self (ex_state ''/x/empty'' ''/dst'' 0)) = length ([] :: byte list) \<and>
   fst (run ex_env (ex_state ''/x/empty'' ''/dst'' 0)) = Inr () \<and>
   emitted (snd (run ex_env (ex_state ''/x/empty'' ''/dst'' 0))) = [Finished ''j1''] \<and>
   progress_values (emitted (snd (run ex_env (ex_state ''/x/empty'' ''/dst'' 0)))) = [] \<and>
   oplog (snd (run ex_env (ex_state ''/x/empty'' ''/dst'' 0)))
     = [OpRead 0, OpCopystat ''/x/empty'' ''/dst/empty'']"
  by (simp add: ex_state_def Transfer_init_def isdir_def path_exists_def ex_files_lookup ex_paths
        run_def file_exists_def copy_def copyfile_def open_rb_def open_wb_def file_bytes_def
        copyfileobj_def read_loop.simps[of _ _ _ _ _ "[]"] copy_stat_def
        ex_env_def Let_def emit_def log_op_def set_running_def)

text \<open>
  Claim C9 as amended: for every job whose declared size is the number of bytes of its
  source, whatever fails and whenever it is cancelled, the percentages \<^verbatim>\<open>run\<close> emits
  never decrease; when there is at least one, the last is 100; and there is at least one
  when the declared size is positive and \<^verbatim>\<open>run\<close> returns (on success, cancel, error
  and duplicate alike).
\<close>

theorem run_progress_monotone:
  assumes "\<forall>bs. files st (src (self st)) = Some (File bs) \<longrightarrow> length bs = size_bytes (self st)"
  shows "\<exists>new. emitted (snd (run e st)) = emitted st @ new \<and>
           sorted (progress_values new) \<and>
           (progress_values new \<noteq> [] \<longrightarrow> last (progress_values new) = 100) \<and>
           (0 < size_bytes (self st) \<and> fst (run e st) = Inr () \<longrightarrow> progress_values new \<noteq> [])"
proof (cases "file_exists (files st) (src (self st)) (dst (self st))")
  case True
  let ?new = "[Duplicate (dst (self st)), Progress (job_id (self st)) 100, Finished (job_id (self st))]"
  have "emitted (snd (run e st)) = emitted st @ ?new"
    by (simp add: run_duplicate_path[OF True])
  moreover have "sorted (progress_values ?new)" by simp
  moreover have "progress_values ?new \<noteq> [] \<and> last (progress_values ?new) = 100" by simp
  ultimately show ?thesis by blast
next
  case False
  from copyfile_progress[OF assms False, of e] obtain new where
    n: "emitted (snd (copyfile e (src (self st)) (dst (self st)) st)) = emitted st @ new \<and>
           sorted (progress_values new) \<and>
           (progress_values new \<noteq> [] \<longrightarrow> last (progress_values new) = 100) \<and>
           (0 < size_bytes (self st) \<and> (\<exists>r. fst (copyfile e (src (self st)) (dst (self st)) st) = Inr r)
              \<longrightarrow> progress_values new \<noteq> [])" ..
  have em: "emitted (snd (run e st)) = emitted (snd (copyfile e (src (self st)) (dst (self st)) st))"
    by (simp add: run_copy_path(1)[OF False] copy_emitted(1))
  have rt: "(fst (run e st) = Inr ()) = (\<exists>r. fst (copyfile e (src (self st)) (dst (self st)) st) = Inr r)"
    by (simp add: run_copy_path(2)[OF False] copy_emitted(2))
  from n have "emitted (snd (run e st)) = emitted st @ new \<and>
           sorted (progress_values new) \<and>
           (progress_values new \<noteq> [] \<longrightarrow> last (progress_values new) = 100) \<and>
           (0 < size_bytes (self st) \<and> fst (run e st) = Inr () \<longrightarrow> progress_values new \<noteq> [])"
    by (simp add: em rt)
  then show ?thesis ..
qed

theorem run_progress_monotone_witness:
  "files ex_big_state (src (self ex_big_state)) = Some (File (replicate 3000000 0)) \<and>
   length (replicate 3000000 (0::byte)) = size_bytes (self ex_big_state) \<and>
   0 < size_bytes (self ex_big_state) \<and>
   fst (run ex_env_late ex_big_state) = Inr () \<and>
   sorted (progress_values (emitted (snd (run ex_env_late ex_big_state)))) \<and>
   progress_values (emitted (snd (run ex_env_late ex_big_state))) \<noteq> [] \<and>
   last (progress_values (emitted (snd (run ex_env_late ex_big_state)))) = 100"
proof -
  let ?st = ex_big_state
  note f = ex_big_state_fields
  have h1: "\<forall>bs. files ?st (src (self ?st)) = Some (File bs) \<longrightarrow> length bs = size_bytes (self ?st)"
    by (simp add: f ex_big_lookup)
  have h2: "0 < size_bytes (self ?st)" by (simp add: f)
  have nd: "\<not> file_exists (files ?st) (src (self ?st)) (dst (self ?st))"
    by (simp add: f file_exists_def isdir_def path_exists_def ex_big_lookup)
  have rb: "open_rb ex_env_late (files ?st) (src (self ?st)) = Inr ()"
    by (simp add: f open_rb_def ex_env_late_def ex_env_def ex_big_lookup)
  have wb: "open_wb ex_env_late (files ?st) (dst (self ?st)) = Inr (ex_big_files(''/dst/big'' \<mapsto> File []))"
    by (simp add: f open_wb_def ex_env_late_def ex_env_def ex_big_lookup)
  from copyfile_returns[OF rb wb]
  have h3: "fst (run ex_env_late ?st) = Inr ()"
    by (simp add: run_copy_path(2)[OF nd] copy_emitted(2))
  from run_progress_monotone[OF h1, of ex_env_late] h2 h3
  have "sorted (progress_values (emitted (snd (run ex_env_late ?st)))) \<and>
        progress_values (emitted (snd (run ex_env_late ?st))) \<noteq> [] \<and>
        last (progress_values (emitted (snd (run ex_env_late ?st)))) = 100"
    by (auto simp add: f)
  moreover have "files ?st (src (self ?st)) = Some (File (replicate 3000000 0))"
    "length (replicate 3000000 (0::byte)) = size_bytes (self ?st)"
    by (simp_all add: f ex_big_lookup)
  ultimately show ?thesis using h2 h3 by blast
qed

end
